theory Spec2Isabelle
  imports Main
begin

section \<open>Values shared by the store and the handlers\<close>

text \<open>
  Every call that can throw in the TypeScript returns a sum here: \<open>Inl e\<close> is the
  exception \<open>e\<close>, \<open>Inr v\<close> the value. An \<open>async\<close> function that rejects is
  \<open>Inl\<close> too.
\<close>

datatype error =
    EncryptionError
  | DecryptionError
  | StoreUnavailable
  | ForeignKeyViolation
  | RecordNotFound
  | ExternalCallFailed

type_synonym timestamp = nat

text \<open>A DOUBLE PRECISION column; its values are only copied, never computed with.\<close>

typedecl double

subsection \<open>The session object and the tables of the migration\<close>

text \<open>
  The \<open>Session\<close> object handed to \<open>storeSession\<close> (the fields the \<open>sessions\<close> table
  keeps for an offline session). An absent \<open>accessToken\<close> and the empty one are both
  falsy in \<open>if (session.accessToken)\<close>; both are the empty string here.
\<close>

record session =
  sessId :: string
  sessShop :: string
  state :: string
  isOnline :: bool
  scope :: "string option"
  expires :: "timestamp option"
  accessToken :: string

text \<open>The profile columns of \<open>shops\<close>, filled from the REST \<open>Shop\<close> resource.\<close>

record shop_profile =
  name :: "string option"
  email :: "string option"
  domain :: "string option"
  province :: "string option"
  country :: "string option"
  address1 :: "string option"
  zipCode :: "string option"
  city :: "string option"
  phone :: "string option"
  latitude :: "double option"
  longitude :: "double option"
  primaryLocale :: "string option"
  address2 :: "string option"
  planName :: "string option"

text \<open>
  A row of \<open>shops\<close>. The columns \<open>id\<close>, \<open>created_at\<close> and \<open>updated_at\<close> are kept by
  the store itself and are not part of the row here.
\<close>

record shop_row =
  shop :: string
  profile :: shop_profile
  installedAt :: timestamp
  uninstalledAt :: "timestamp option"
  isActive :: bool
  accessTokenEncrypted :: "string option"
  webhookSecret :: "string option"
  appSettings :: "string option"
  features :: "string list"

datatype webhook_status = PENDING | PROCESSING | SUCCESS | FAILED | RETRY

datatype job_status = JOB_PENDING | JOB_RUNNING | JOB_COMPLETED | JOB_FAILED | JOB_CANCELLED

text \<open>A row of \<open>webhook_deliveries\<close>.\<close>

record delivery =
  deliveryId :: nat
  deliveryShop :: string
  topic :: string
  webhookId :: "string option"
  headers :: string
  body :: string
  queryParams :: string
  status :: webhook_status
  attempts :: nat
  lastAttemptAt :: "timestamp option"
  processedAt :: "timestamp option"
  errorMessage :: "string option"
  hmacValid :: bool
  jobId :: "nat option"

text \<open>A row of \<open>queue_jobs\<close>.\<close>

record job =
  queueJobId :: nat
  jobType :: string
  jobData :: string
  jobStatus :: job_status
  jobAttempts :: nat
  maxAttempts :: nat
  scheduledFor :: "timestamp option"
  startedAt :: "timestamp option"
  completedAt :: "timestamp option"
  failedAt :: "timestamp option"
  jobErrorMessage :: "string option"
  jobErrorStack :: "string option"

text \<open>
  The relational store: \<open>shops\<close> has a unique key on \<open>shop\<close>, so it is a map from
  the key; the other tables are lists of rows. The billing tables are outside the
  core and are left out.
\<close>

record db =
  shops :: "string \<rightharpoonup> shop_row"
  sessions :: "session list"
  deliveries :: "delivery list"
  jobs :: "job list"

definition empty_db :: db where
  "empty_db = \<lparr>shops = Map.empty, sessions = [], deliveries = [], jobs = []\<rparr>"

subsection \<open>The store's operations, as the Prisma client offers them\<close>

text \<open>
  A call to the store can fail for reasons of its own (the connection is down); which
  tables are unreachable during an operation is an input.
\<close>

record store_faults =
  sessionTableDown :: bool
  shopTableDown :: bool

definition store_up :: store_faults where
  "store_up = \<lparr>sessionTableDown = False, shopTableDown = False\<rparr>"

fun upsert_row :: "session \<Rightarrow> session list \<Rightarrow> session list" where
  "upsert_row s [] = [s]"
| "upsert_row s (r # rs) = (if sessId r = sessId s then s # rs else r # upsert_row s rs)"

text \<open>
  \<open>prisma.session.upsert\<close> by id. The migration gives \<open>sessions.shop\<close> a foreign key
  to \<open>shops.shop\<close>, so the write is refused when no such shop row exists.
\<close>

definition session_upsert :: "store_faults \<Rightarrow> session \<Rightarrow> db \<Rightarrow> error + db" where
  "session_upsert F s d =
     (if sessionTableDown F then Inl StoreUnavailable
      else if shops d (sessShop s) = None then Inl ForeignKeyViolation
      else Inr (d\<lparr>sessions := upsert_row s (sessions d)\<rparr>))"

definition session_findUnique :: "store_faults \<Rightarrow> string \<Rightarrow> db \<Rightarrow> error + session option" where
  "session_findUnique F i d =
     (if sessionTableDown F then Inl StoreUnavailable
      else Inr (find (\<lambda>r. sessId r = i) (sessions d)))"

definition session_deleteMany :: "store_faults \<Rightarrow> string \<Rightarrow> db \<Rightarrow> error + db" where
  "session_deleteMany F k d =
     (if sessionTableDown F then Inl StoreUnavailable
      else Inr (d\<lparr>sessions := filter (\<lambda>r. sessShop r \<noteq> k) (sessions d)\<rparr>))"

definition shop_upsert ::
  "store_faults \<Rightarrow> string \<Rightarrow> shop_row \<Rightarrow> (shop_row \<Rightarrow> shop_row) \<Rightarrow> db \<Rightarrow> error + db" where
  "shop_upsert F k create update d =
     (if shopTableDown F then Inl StoreUnavailable
      else Inr (d\<lparr>shops := (shops d)(k \<mapsto>
                  (case shops d k of None \<Rightarrow> create | Some r \<Rightarrow> update r))\<rparr>))"

definition shop_update ::
  "store_faults \<Rightarrow> string \<Rightarrow> (shop_row \<Rightarrow> shop_row) \<Rightarrow> db \<Rightarrow> error + db" where
  "shop_update F k update d =
     (if shopTableDown F then Inl StoreUnavailable
      else (case shops d k of
              None \<Rightarrow> Inl RecordNotFound
            | Some r \<Rightarrow> Inr (d\<lparr>shops := (shops d)(k \<mapsto> update r)\<rparr>)))"

text \<open>
  \<open>prisma.shop.delete\<close>. The foreign keys of the migration decide what a delete does:
  \<open>sessions_shop_fkey\<close> is ON DELETE RESTRICT, so the delete is refused while a
  session row names the shop; \<open>webhook_deliveries_shop_fkey\<close> is ON DELETE CASCADE,
  so the shop's delivery rows go with it. \<open>queue_jobs\<close> has no foreign key.
\<close>

definition shop_delete :: "store_faults \<Rightarrow> string \<Rightarrow> db \<Rightarrow> error + db" where
  "shop_delete F k d =
     (if shopTableDown F then Inl StoreUnavailable
      else if shops d k = None then Inl RecordNotFound
      else if find (\<lambda>r. sessShop r = k) (sessions d) \<noteq> None then Inl ForeignKeyViolation
      else Inr (d\<lparr>shops := (shops d)(k := None),
                   deliveries := filter (\<lambda>r. deliveryShop r \<noteq> k) (deliveries d)\<rparr>))"

text \<open>The row a create makes when it names only some columns: the column defaults.\<close>

definition no_profile :: shop_profile where
  "no_profile = \<lparr>name = None, email = None, domain = None, province = None,
     country = None, address1 = None, zipCode = None, city = None, phone = None,
     latitude = None, longitude = None, primaryLocale = None, address2 = None,
     planName = None\<rparr>"

definition new_shop :: "string \<Rightarrow> timestamp \<Rightarrow> shop_row" where
  "new_shop k now = \<lparr>shop = k, profile = no_profile, installedAt = now,
     uninstalledAt = None, isActive = True, accessTokenEncrypted = None,
     webhookSecret = None, appSettings = None, features = []\<rparr>"

subsection \<open>The credential vault, as the session storage uses it\<close>

text \<open>
  \<open>encryptToken\<close> and \<open>decryptToken\<close> are imported from \<open>lib/crypto.server\<close>; the
  handlers take them as a parameter. The first argument of \<open>encryptToken\<close> is the
  randomness the call draws (its nonce).
\<close>

record vault =
  encryptToken :: "nat \<Rightarrow> string \<Rightarrow> error + string"
  decryptToken :: "string \<Rightarrow> error + string"

section \<open>shopify.server.ts\<close>

subsection \<open>EncryptedPrismaSessionStorage\<close>

text \<open>The inherited \<open>PrismaSessionStorage\<close> methods: an upsert by id that answers
  \<open>true\<close>, and a lookup by id.\<close>

definition super_storeSession :: "store_faults \<Rightarrow> session \<Rightarrow> db \<Rightarrow> error + (bool \<times> db)" where
  "super_storeSession F s d =
     (case session_upsert F s d of Inl e \<Rightarrow> Inl e | Inr d' \<Rightarrow> Inr (True, d'))"

definition super_loadSession :: "store_faults \<Rightarrow> string \<Rightarrow> db \<Rightarrow> error + session option" where
  "super_loadSession F i d = session_findUnique F i d"

text \<open>
  The \<open>try\<close> block of \<open>storeSession\<close>. It returns the outcome, the session object as
  the call leaves it (the method assigns the ciphertext to \<open>session.accessToken\<close>) and
  the store. The three nonces are those of the three \<open>encryptToken\<close> calls: line 24,
  and the \<open>create\<close> and \<open>update\<close> arguments of the upsert.
\<close>

definition storeSession_try ::
  "vault \<Rightarrow> store_faults \<Rightarrow> nat \<times> nat \<times> nat \<Rightarrow> timestamp \<Rightarrow> session \<Rightarrow> db
     \<Rightarrow> (error + bool) \<times> session \<times> db" where
  "storeSession_try V F ns now s d =
     (case ns of (n1, n2, n3) \<Rightarrow>
      if accessToken s \<noteq> [] then
        (let originalToken = accessToken s in
         case encryptToken V n1 originalToken of
           Inl e \<Rightarrow> (Inl e, s, d)
         | Inr c \<Rightarrow>
            (let s1 = s\<lparr>accessToken := c\<rparr> in
             case super_storeSession F s1 d of
               Inl e \<Rightarrow> (Inl e, s1, d)
             | Inr (result, d1) \<Rightarrow>
                if sessShop s1 \<noteq> [] \<and> originalToken \<noteq> [] then
                  (case encryptToken V n2 originalToken of
                     Inl e \<Rightarrow> (Inl e, s1, d1)
                   | Inr cc \<Rightarrow>
                      (case encryptToken V n3 originalToken of
                         Inl e \<Rightarrow> (Inl e, s1, d1)
                       | Inr cu \<Rightarrow>
                          (case shop_upsert F (sessShop s1)
                                  ((new_shop (sessShop s1) now)
                                     \<lparr>accessTokenEncrypted := Some cc, isActive := True\<rparr>)
                                  (\<lambda>r. r\<lparr>accessTokenEncrypted := Some cu, isActive := True\<rparr>)
                                  d1 of
                             Inl e \<Rightarrow> (Inl e, s1, d1)
                           | Inr d2 \<Rightarrow> (Inr result, s1, d2))))
                else (Inr result, s1, d1)))
      else
        (case super_storeSession F s d of
           Inl e \<Rightarrow> (Inl e, s, d)
         | Inr (result, d1) \<Rightarrow> (Inr result, s, d1)))"

text \<open>\<open>storeSession\<close>: the \<open>try\<close> block, and \<open>catch (error) { ...; return false; }\<close>.\<close>

definition storeSession ::
  "vault \<Rightarrow> store_faults \<Rightarrow> nat \<times> nat \<times> nat \<Rightarrow> timestamp \<Rightarrow> session \<Rightarrow> db
     \<Rightarrow> (error + bool) \<times> session \<times> db" where
  "storeSession V F ns now s d =
     (case storeSession_try V F ns now s d of
        (Inl e, s', d') \<Rightarrow> (Inr False, s', d')
      | (Inr b, s', d') \<Rightarrow> (Inr b, s', d'))"

text \<open>The \<open>try\<close> block of \<open>loadSession\<close>; \<open>None\<close> is \<open>undefined\<close>.\<close>

definition loadSession_try ::
  "vault \<Rightarrow> store_faults \<Rightarrow> string \<Rightarrow> db \<Rightarrow> error + session option" where
  "loadSession_try V F i d =
     (case super_loadSession F i d of
        Inl e \<Rightarrow> Inl e
      | Inr None \<Rightarrow> Inr None
      | Inr (Some s) \<Rightarrow>
          if accessToken s \<noteq> [] then
            (case decryptToken V (accessToken s) of
               Inl e \<Rightarrow> Inl e
             | Inr t \<Rightarrow> Inr (Some (s\<lparr>accessToken := t\<rparr>)))
          else Inr (Some s))"

definition loadSession ::
  "vault \<Rightarrow> store_faults \<Rightarrow> string \<Rightarrow> db \<Rightarrow> error + session option" where
  "loadSession V F i d =
     (case loadSession_try V F i d of Inl e \<Rightarrow> Inr None | Inr r \<Rightarrow> Inr r)"

subsection \<open>The afterAuth hook\<close>

text \<open>
  The hook's two calls to the platform are inputs: whether \<open>registerWebhooks\<close>
  returns, and what \<open>Shop.all\<close> answers (\<open>None\<close> when it throws, else the \<open>data\<close>
  array). The two nonces are those of the \<open>create\<close> and \<open>update\<close> arguments.
\<close>

definition afterAuth_try ::
  "vault \<Rightarrow> store_faults \<Rightarrow> nat \<times> nat \<Rightarrow> timestamp \<Rightarrow> session \<Rightarrow> bool
     \<Rightarrow> shop_profile list option \<Rightarrow> db \<Rightarrow> (error + unit) \<times> db" where
  "afterAuth_try V F ns now s webhooksRegistered shopData d =
     (case ns of (n1, n2) \<Rightarrow>
      if \<not> webhooksRegistered then (Inl ExternalCallFailed, d)
      else
        (case shopData of
           None \<Rightarrow> (Inl ExternalCallFailed, d)
         | Some [] \<Rightarrow> (Inr (), d)
         | Some (p # _) \<Rightarrow>
            (case encryptToken V n1 (accessToken s) of
               Inl e \<Rightarrow> (Inl e, d)
             | Inr cc \<Rightarrow>
                (case encryptToken V n2 (accessToken s) of
                   Inl e \<Rightarrow> (Inl e, d)
                 | Inr cu \<Rightarrow>
                    (case shop_upsert F (sessShop s)
                            ((new_shop (sessShop s) now)
                               \<lparr>profile := p, accessTokenEncrypted := Some cc,
                                isActive := True, installedAt := now\<rparr>)
                            (\<lambda>r. r\<lparr>profile := p, accessTokenEncrypted := Some cu,
                                   isActive := True, uninstalledAt := None\<rparr>)
                            d of
                       Inl e \<Rightarrow> (Inl e, d)
                     | Inr d' \<Rightarrow> (Inr (), d'))))))"

definition afterAuth ::
  "vault \<Rightarrow> store_faults \<Rightarrow> nat \<times> nat \<Rightarrow> timestamp \<Rightarrow> session \<Rightarrow> bool
     \<Rightarrow> shop_profile list option \<Rightarrow> db \<Rightarrow> (error + unit) \<times> db" where
  "afterAuth V F ns now s webhooksRegistered shopData d =
     (case afterAuth_try V F ns now s webhooksRegistered shopData d of
        (Inl e, d') \<Rightarrow> (Inr (), d')
      | (Inr u, d') \<Rightarrow> (Inr u, d'))"

subsection \<open>The webhook callbacks\<close>

text \<open>\<open>APP_UNINSTALLED\<close>: one \<open>prisma.shop.update\<close> inside \<open>try\<close>/\<open>catch\<close>.\<close>

definition APP_UNINSTALLED_try :: "store_faults \<Rightarrow> timestamp \<Rightarrow> string \<Rightarrow> db \<Rightarrow> (error + unit) \<times> db" where
  "APP_UNINSTALLED_try F now k d =
     (case shop_update F k (\<lambda>r. r\<lparr>isActive := False, uninstalledAt := Some now\<rparr>) d of
        Inl e \<Rightarrow> (Inl e, d)
      | Inr d' \<Rightarrow> (Inr (), d'))"

definition APP_UNINSTALLED :: "store_faults \<Rightarrow> timestamp \<Rightarrow> string \<Rightarrow> db \<Rightarrow> (error + unit) \<times> db" where
  "APP_UNINSTALLED F now k d =
     (case APP_UNINSTALLED_try F now k d of
        (Inl e, d') \<Rightarrow> (Inr (), d')
      | (Inr u, d') \<Rightarrow> (Inr u, d'))"

text \<open>
  \<open>SHOP_REDACT\<close>: \<open>prisma.shop.delete\<close>, then \<open>prisma.session.deleteMany\<close>, both
  inside one \<open>try\<close>; a throw of the first skips the second.
\<close>

definition SHOP_REDACT_try :: "store_faults \<Rightarrow> string \<Rightarrow> db \<Rightarrow> (error + unit) \<times> db" where
  "SHOP_REDACT_try F k d =
     (case shop_delete F k d of
        Inl e \<Rightarrow> (Inl e, d)
      | Inr d1 \<Rightarrow>
         (case session_deleteMany F k d1 of
            Inl e \<Rightarrow> (Inl e, d1)
          | Inr d2 \<Rightarrow> (Inr (), d2)))"

definition SHOP_REDACT :: "store_faults \<Rightarrow> string \<Rightarrow> db \<Rightarrow> (error + unit) \<times> db" where
  "SHOP_REDACT F k d =
     (case SHOP_REDACT_try F k d of
        (Inl e, d') \<Rightarrow> (Inr (), d')
      | (Inr u, d') \<Rightarrow> (Inr u, d'))"

subsection \<open>Sequences of writes to the tenant table\<close>

text \<open>
  The operations of \<open>shopify.server.ts\<close> that write tenant state, each with the
  inputs it reads. The other callbacks (\<open>CUSTOMERS_DATA_REQUEST\<close>,
  \<open>CUSTOMERS_REDACT\<close>, \<open>APP_SUBSCRIPTIONS_UPDATE\<close>) only log.
\<close>

datatype op =
    StoreSession store_faults "nat \<times> nat \<times> nat" timestamp session
  | AfterAuth store_faults "nat \<times> nat" timestamp session bool "shop_profile list option"
  | AppUninstalled store_faults timestamp string
  | ShopRedact store_faults string
  | LogOnly string

fun apply_op :: "vault \<Rightarrow> op \<Rightarrow> db \<Rightarrow> db" where
  "apply_op V (StoreSession F ns now s) d = snd (snd (storeSession V F ns now s d))"
| "apply_op V (AfterAuth F ns now s w sd) d = snd (afterAuth V F ns now s w sd d)"
| "apply_op V (AppUninstalled F now k) d = snd (APP_UNINSTALLED F now k d)"
| "apply_op V (ShopRedact F k) d = snd (SHOP_REDACT F k d)"
| "apply_op V (LogOnly k) d = d"

fun run_ops :: "vault \<Rightarrow> op list \<Rightarrow> db \<Rightarrow> db" where
  "run_ops V [] d = d"
| "run_ops V (x # xs) d = run_ops V xs (apply_op V x d)"

text \<open>The invariant of the tenant table: an active row has a credential.\<close>

definition credential_invariant :: "db \<Rightarrow> bool" where
  "credential_invariant d =
     (\<forall>k r. shops d k = Some r \<longrightarrow> isActive r \<longrightarrow> accessTokenEncrypted r \<noteq> None)"

section \<open>scripts/worker.js\<close>

subsection \<open>What the worker writes to its log\<close>

datatype level = INFO | WARN | ERROR

text \<open>The second argument of a logger call: a number, an object of named fields, a
  name, a caught error object, or nothing.\<close>

datatype meta =
    Count nat
  | Fields "(string \<times> meta) list"
  | Name string
  | Thrown
  | Nothing

datatype log_entry = Log level string meta

fun field :: "string \<Rightarrow> meta \<Rightarrow> meta option" where
  "field k (Fields kvs) = map_of kvs k"
| "field k (Count n) = None"
| "field k (Name x) = None"
| "field k Thrown = None"
| "field k Nothing = None"

text \<open>The count a log entry gives for a field of a lane, if it gives one.\<close>

fun reported :: "log_entry \<Rightarrow> string \<Rightarrow> string \<Rightarrow> nat option" where
  "reported (Log l msg m) lane f =
     (case field lane m of
        None \<Rightarrow> None
      | Some x \<Rightarrow> (case field f x of Some (Count n) \<Rightarrow> Some n | _ \<Rightarrow> None))"

subsection \<open>The health check\<close>

text \<open>
  \<open>lib/queue.server.js\<close> is not among the sources: what the five queries of one
  health check answer is an input, each a throw or the count the answer stands for
  (the number itself, as the comparison with 10 reads \<open>webhookFailed\<close>). The
  callback asks nothing else; in particular there is no \<open>generalQueue.failed()\<close>.
\<close>

record health_reads =
  webhookWaiting :: "error + nat"
  webhookActive :: "error + nat"
  webhookFailed :: "error + nat"
  generalWaiting :: "error + nat"
  generalActive :: "error + nat"

text \<open>The callback of \<open>setInterval\<close>: what one run of it logs.\<close>

definition healthCheck :: "health_reads \<Rightarrow> log_entry list" where
  "healthCheck q =
     (case webhookWaiting q of
        Inl e \<Rightarrow> [Log ERROR ''Queue health check failed:'' Thrown]
      | Inr wWaiting \<Rightarrow>
     (case webhookActive q of
        Inl e \<Rightarrow> [Log ERROR ''Queue health check failed:'' Thrown]
      | Inr wActive \<Rightarrow>
     (case webhookFailed q of
        Inl e \<Rightarrow> [Log ERROR ''Queue health check failed:'' Thrown]
      | Inr wFailed \<Rightarrow>
     (case generalWaiting q of
        Inl e \<Rightarrow> [Log ERROR ''Queue health check failed:'' Thrown]
      | Inr gWaiting \<Rightarrow>
     (case generalActive q of
        Inl e \<Rightarrow> [Log ERROR ''Queue health check failed:'' Thrown]
      | Inr gActive \<Rightarrow>
          Log INFO ''Queue health check''
            (Fields [(''webhook'', Fields [(''waiting'', Count wWaiting), (''active'', Count wActive),
                                           (''failed'', Count wFailed)]),
                     (''general'', Fields [(''waiting'', Count gWaiting), (''active'', Count gActive)])])
          # (if wFailed > 10
             then [Log WARN ''High webhook failure rate detected''
                     (Fields [(''failed'', Count wFailed)])]
             else []))))))"

subsection \<open>The worker process\<close>

datatype signal = SIGTERM | SIGINT | SIGUSR2 | uncaughtException | unhandledRejection

fun signal_name :: "signal \<Rightarrow> string" where
  "signal_name SIGTERM = ''SIGTERM''"
| "signal_name SIGINT = ''SIGINT''"
| "signal_name SIGUSR2 = ''SIGUSR2''"
| "signal_name uncaughtException = ''uncaughtException''"
| "signal_name unhandledRejection = ''unhandledRejection''"

text \<open>
  Where \<open>gracefulShutdown\<close> stands: not running, or suspended at one of its
  \<open>await\<close>s. \<open>ActiveGeneral n\<close> is the second \<open>await\<close> of line 79, \<open>n\<close> being the
  length the first one answered.
\<close>

datatype awaiting =
    Serving
  | PauseWebhook
  | PauseGeneral
  | ActiveWebhook
  | ActiveGeneral nat
  | Sleeping
  | CloseWebhook
  | CloseGeneral

text \<open>
  The process: the module variable \<open>isShuttingDown\<close>, the suspended shutdown, whether
  the \<open>shutdownTimeout\<close> timer is pending, the local \<open>activeJobs\<close>, what the process
  has done to the two queues, the exit code once \<open>process.exit\<close> was called, and the log.
\<close>

record worker =
  isShuttingDown :: bool
  awaiting :: awaiting
  shutdownTimeout :: bool
  activeJobs :: nat
  webhookPaused :: bool
  generalPaused :: bool
  webhookClosed :: bool
  generalClosed :: bool
  exited :: "nat option"
  logged :: "log_entry list"

definition logger :: "level \<Rightarrow> string \<Rightarrow> meta \<Rightarrow> worker \<Rightarrow> worker" where
  "logger l msg m w = w\<lparr>logged := logged w @ [Log l msg m]\<rparr>"

definition process_exit :: "nat \<Rightarrow> worker \<Rightarrow> worker" where
  "process_exit c w = w\<lparr>exited := Some c\<rparr>"

text \<open>
  \<open>startWorker\<close>: its \<open>try\<close> block logs and sets the interval; if that throws, the
  \<open>catch\<close> logs and exits with 1. (The first message starts with an emoji in the
  source.)
\<close>

definition startWorker :: "bool \<Rightarrow> worker" where
  "startWorker ok =
     (let w = \<lparr>isShuttingDown = False, awaiting = Serving, shutdownTimeout = False,
               activeJobs = 0, webhookPaused = False, generalPaused = False,
               webhookClosed = False, generalClosed = False, exited = None, logged = []\<rparr>
      in if ok
         then logger INFO ''Background worker started successfully'' Nothing
                (logger INFO ''app.started'' (Count 0) w)
         else process_exit 1 (logger ERROR ''Failed to start worker:'' Thrown w))"

text \<open>\<open>gracefulShutdown(signal)\<close> up to its first \<open>await\<close>.\<close>

definition gracefulShutdown :: "signal \<Rightarrow> worker \<Rightarrow> worker" where
  "gracefulShutdown sg w =
     (if isShuttingDown w
      then process_exit 1 (logger INFO ''Force shutdown requested'' Nothing w)
      else (logger INFO ''Gracefully shutting down worker...'' Nothing
              (logger INFO ''app.shutdown'' (Name (signal_name sg))
                 (w\<lparr>isShuttingDown := True\<rparr>)))
           \<lparr>awaiting := PauseWebhook\<rparr>)"

text \<open>The \<open>catch\<close> of \<open>gracefulShutdown\<close>.\<close>

definition shutdown_catch :: "worker \<Rightarrow> worker" where
  "shutdown_catch w = process_exit 1 (logger ERROR ''Error during shutdown:'' Thrown w)"

text \<open>
  \<open>gracefulShutdown\<close> resumed when the queue call it awaits settles, up to the next
  \<open>await\<close>: \<open>Inl\<close> is a rejection, \<open>Inr n\<close> a value (for the two \<open>active()\<close> calls
  the length of the array, otherwise not looked at).
\<close>

definition settle :: "error + nat \<Rightarrow> worker \<Rightarrow> worker" where
  "settle r w =
     (case awaiting w of
        Serving \<Rightarrow> w
      | PauseWebhook \<Rightarrow>
          (case r of Inl e \<Rightarrow> shutdown_catch w
           | Inr v \<Rightarrow> w\<lparr>webhookPaused := True, awaiting := PauseGeneral\<rparr>)
      | PauseGeneral \<Rightarrow>
          (case r of Inl e \<Rightarrow> shutdown_catch w
           | Inr v \<Rightarrow> w\<lparr>generalPaused := True, shutdownTimeout := True, activeJobs := 0,
                        awaiting := ActiveWebhook\<rparr>)
      | ActiveWebhook \<Rightarrow>
          (case r of Inl e \<Rightarrow> shutdown_catch w
           | Inr n \<Rightarrow> w\<lparr>awaiting := ActiveGeneral n\<rparr>)
      | ActiveGeneral n \<Rightarrow>
          (case r of Inl e \<Rightarrow> shutdown_catch w
           | Inr m \<Rightarrow>
              if n + m > 0
              then (logger INFO ''Waiting for active jobs to complete...'' (Count (n + m))
                      (w\<lparr>activeJobs := n + m\<rparr>))
                   \<lparr>awaiting := Sleeping\<rparr>
              else w\<lparr>activeJobs := n + m, shutdownTimeout := False,
                     awaiting := CloseWebhook\<rparr>)
      | Sleeping \<Rightarrow> w
      | CloseWebhook \<Rightarrow>
          (case r of Inl e \<Rightarrow> shutdown_catch w
           | Inr v \<Rightarrow> w\<lparr>webhookClosed := True, awaiting := CloseGeneral\<rparr>)
      | CloseGeneral \<Rightarrow>
          (case r of Inl e \<Rightarrow> shutdown_catch w
           | Inr v \<Rightarrow> process_exit 0
                        (logger INFO ''Worker shutdown complete'' Nothing
                           (w\<lparr>generalClosed := True\<rparr>))))"

text \<open>The one-second timer of line 82 fires: the loop condition is read again.\<close>

definition sleep_over :: "worker \<Rightarrow> worker" where
  "sleep_over w = (if awaiting w = Sleeping then w\<lparr>awaiting := ActiveWebhook\<rparr> else w)"

text \<open>The callback of \<open>shutdownTimeout\<close>, if the timer is still pending.\<close>

definition timeout_fired :: "worker \<Rightarrow> worker" where
  "timeout_fired w =
     (if shutdownTimeout w
      then process_exit 1 (logger WARN ''Shutdown timeout reached, forcing exit'' Nothing w)
      else w)"

text \<open>The handlers registered with \<open>process.on\<close>.\<close>

definition on_signal :: "signal \<Rightarrow> worker \<Rightarrow> worker" where
  "on_signal sg w =
     (case sg of
        uncaughtException \<Rightarrow>
          gracefulShutdown sg (logger ERROR ''Uncaught exception in worker:'' Thrown w)
      | unhandledRejection \<Rightarrow>
          gracefulShutdown sg (logger ERROR ''Unhandled rejection in worker:'' Thrown w)
      | _ \<Rightarrow> gracefulShutdown sg w)"

text \<open>
  What the event loop can run next: a handler of \<open>process.on\<close>, the continuation of
  the shutdown, one of the two timers of the shutdown, or the health check. After
  \<open>process.exit\<close> nothing runs.
\<close>

datatype event =
    Signal signal
  | Settled "error + nat"
  | SleepOver
  | TimeoutFired
  | HealthTick health_reads

definition step :: "event \<Rightarrow> worker \<Rightarrow> worker" where
  "step e w =
     (if exited w \<noteq> None then w
      else (case e of
              Signal sg \<Rightarrow> on_signal sg w
            | Settled r \<Rightarrow> settle r w
            | SleepOver \<Rightarrow> sleep_over w
            | TimeoutFired \<Rightarrow> timeout_fired w
            | HealthTick q \<Rightarrow> w\<lparr>logged := logged w @ healthCheck q\<rparr>))"

fun run :: "event list \<Rightarrow> worker \<Rightarrow> worker" where
  "run [] w = w"
| "run (e # es) w = run es (step e w)"

text \<open>
  Traces of a shutdown. \<open>busy_polls\<close>: rounds of the loop that each find the given
  numbers of active jobs and sleep. \<open>begin_shutdown\<close>: the trigger and both pauses.
  \<open>clean_shutdown\<close>: a shutdown that, after these rounds, finds no active job and
  closes both queues.
\<close>

fun busy_polls :: "(nat \<times> nat) list \<Rightarrow> event list" where
  "busy_polls [] = []"
| "busy_polls ((n, m) # ps) = Settled (Inr n) # Settled (Inr m) # SleepOver # busy_polls ps"

definition begin_shutdown :: "signal \<Rightarrow> event list" where
  "begin_shutdown sg = [Signal sg, Settled (Inr 0), Settled (Inr 0)]"

definition clean_shutdown :: "signal \<Rightarrow> (nat \<times> nat) list \<Rightarrow> event list" where
  "clean_shutdown sg ps =
     begin_shutdown sg @ busy_polls ps
       @ [Settled (Inr 0), Settled (Inr 0), Settled (Inr 0), Settled (Inr 0)]"

text \<open>The last log entry of an exit with code 1.\<close>

definition forced_exit_logs :: "log_entry set" where
  "forced_exit_logs =
     {Log INFO ''Force shutdown requested'' Nothing,
      Log WARN ''Shutdown timeout reached, forcing exit'' Nothing,
      Log ERROR ''Error during shutdown:'' Thrown,
      Log ERROR ''Failed to start worker:'' Thrown}"

text \<open>Whether the shutdown has come as far as the polling loop.\<close>

fun polling :: "awaiting \<Rightarrow> bool" where
  "polling ActiveWebhook = True"
| "polling (ActiveGeneral n) = True"
| "polling Sleeping = True"
| "polling a = False"

text \<open>What holds of the process at every moment.\<close>

definition shutdown_invariant :: "worker \<Rightarrow> bool" where
  "shutdown_invariant w =
     ((isShuttingDown w \<longleftrightarrow> awaiting w \<noteq> Serving)
      \<and> (webhookPaused w \<longleftrightarrow> awaiting w \<noteq> Serving \<and> awaiting w \<noteq> PauseWebhook)
      \<and> (generalPaused w \<longleftrightarrow> polling (awaiting w) \<or> awaiting w = CloseWebhook
                                  \<or> awaiting w = CloseGeneral)
      \<and> (shutdownTimeout w \<longrightarrow> polling (awaiting w))
      \<and> (activeJobs w > 0 \<longrightarrow> polling (awaiting w))
      \<and> (webhookClosed w \<longleftrightarrow> awaiting w = CloseGeneral)
      \<and> (generalClosed w \<longleftrightarrow> exited w = Some 0)
      \<and> (exited w = Some 0 \<longrightarrow> awaiting w = CloseGeneral
             \<and> last (logged w) = Log INFO ''Worker shutdown complete'' Nothing)
      \<and> (\<forall>c. exited w = Some c \<longrightarrow> c = 0 \<or> c = 1 \<and> last (logged w) \<in> forced_exit_logs))"

section \<open>The credential vault\<close>

text \<open>
  Modelled from the spec: \<open>lib/crypto.server.ts\<close>, which defines \<open>encryptToken\<close> and
  \<open>decryptToken\<close>, is not among the sources, and the handlers take the vault as a
  parameter. The vault below stands in for it in the concrete instances. It has the
  interface of section 4.2 and no more: a symmetric cipher under a process-wide key,
  a per-call nonce stored alongside the ciphertext (the first four bytes of the
  blob), and a \<open>decrypt\<close> that fails with \<open>DecryptionError\<close> on a blob too short to
  hold a nonce. The keystream is a shift by key and nonce. The authentication of the
  ciphertext is not modelled: nothing below rests on what this vault does with a blob
  it did not produce.
\<close>

definition keySum :: "string \<Rightarrow> nat" where
  "keySum k = sum_list (map of_char k)"

definition shift_char :: "nat \<Rightarrow> char \<Rightarrow> char" where
  "shift_char n c = char_of (of_char c + n)"

definition unshift_char :: "nat \<Rightarrow> char \<Rightarrow> char" where
  "unshift_char n c = char_of (of_char c + (256 - n mod 256))"

definition iv_of :: "nat \<Rightarrow> string" where
  "iv_of n = [char_of n, char_of (n div 256), char_of (n div 65536), char_of (n div 16777216)]"

definition mask :: "string \<Rightarrow> string \<Rightarrow> string \<Rightarrow> string" where
  "mask key iv p = map (shift_char (keySum key + keySum iv)) p"

definition unmask :: "string \<Rightarrow> string \<Rightarrow> string \<Rightarrow> string" where
  "unmask key iv c = map (unshift_char (keySum key + keySum iv)) c"

text \<open>Modelled from the spec: \<open>encrypt(plaintext) -> ciphertextBlob\<close> of section 4.2,
  with the nonce the call draws as its second argument.\<close>

definition spec_encrypt :: "string \<Rightarrow> nat \<Rightarrow> string \<Rightarrow> string" where
  "spec_encrypt key n p = (let iv = iv_of n in iv @ mask key iv p)"

text \<open>Modelled from the spec: \<open>decrypt(ciphertextBlob) -> plaintext\<close> of section 4.2,
  failing with \<open>DecryptionError\<close> on a malformed blob.\<close>

definition spec_decrypt :: "string \<Rightarrow> string \<Rightarrow> error + string" where
  "spec_decrypt key b =
     (if length b < 4 then Inl DecryptionError
      else Inr (unmask key (take 4 b) (drop 4 b)))"

text \<open>Modelled from the spec: the two functions \<open>lib/crypto.server.ts\<close> exports, under
  the key the process was configured with.\<close>

definition specVault :: "string \<Rightarrow> vault" where
  "specVault key =
     \<lparr>encryptToken = (\<lambda>n p. Inr (spec_encrypt key n p)), decryptToken = spec_decrypt key\<rparr>"

text \<open>A vault whose encryption throws, for the failure paths.\<close>

definition brokenVault :: vault where
  "brokenVault = \<lparr>encryptToken = (\<lambda>n p. Inl EncryptionError),
                  decryptToken = (\<lambda>b. Inl DecryptionError)\<rparr>"


section \<open>The dispatcher\<close>

text \<open>
  Modelled from the spec: \<open>lib/webhooks.server.ts\<close>, which holds the Dispatcher, is
  not among the sources. \<open>accept\<close> is the contract of section 4.4 on the tables of
  the migration: it always appends one delivery row, which records the
  signature-validity flag, and it enqueues a job, linked from the row, only when the
  signature is valid; it answers the row's id. Ids are the next free number.
\<close>

definition next_id :: "nat list \<Rightarrow> nat" where
  "next_id xs = Suc (fold max xs 0)"

definition new_job :: "nat \<Rightarrow> string \<Rightarrow> string \<Rightarrow> job" where
  "new_job j t payload =
     \<lparr>queueJobId = j, jobType = t, jobData = payload, jobStatus = JOB_PENDING,
      jobAttempts = 0, maxAttempts = 3, scheduledFor = None, startedAt = None,
      completedAt = None, failedAt = None, jobErrorMessage = None, jobErrorStack = None\<rparr>"

text \<open>Modelled from the spec: \<open>accept(tenantKey, topic, headers, rawBody, query,
  signatureValid) -> DeliveryRecord.id\<close> of section 4.4; \<open>lib/webhooks.server.ts\<close> is not
  among the sources.\<close>

definition accept ::
  "string \<Rightarrow> string \<Rightarrow> string \<Rightarrow> string \<Rightarrow> string \<Rightarrow> bool \<Rightarrow> db \<Rightarrow> nat \<times> db" where
  "accept tenantKey tpc hdrs rawBody query signatureValid d =
     (let rid = next_id (map deliveryId (deliveries d));
          jid = next_id (map queueJobId (jobs d));
          r = \<lparr>deliveryId = rid, deliveryShop = tenantKey, topic = tpc, webhookId = None,
               headers = hdrs, body = rawBody, queryParams = query,
               status = (if signatureValid then PENDING else FAILED), attempts = 0,
               lastAttemptAt = None, processedAt = None, errorMessage = None,
               hmacValid = signatureValid,
               jobId = (if signatureValid then Some jid else None)\<rparr>
      in (rid, d\<lparr>deliveries := deliveries d @ [r],
                 jobs := (if signatureValid then jobs d @ [new_job jid tpc rawBody]
                          else jobs d)\<rparr>))"

section \<open>Fixtures for the concrete instances\<close>

definition example_row :: shop_row where
  "example_row = (new_shop ''a.example'' 100)\<lparr>accessTokenEncrypted := Some ''blob''\<rparr>"

definition example_db :: db where
  "example_db = empty_db\<lparr>shops := [''a.example'' \<mapsto> example_row]\<rparr>"

definition example_session :: session where
  "example_session = \<lparr>sessId = ''offline_a.example'', sessShop = ''a.example'',
     state = ''x'', isOnline = False, scope = None, expires = None,
     accessToken = ''shpat_1''\<rparr>"

definition example_job :: job where
  "example_job = new_job 1 ''shop/redact'' ''a.example''"

text \<open>An installed tenant: its row, one stored session and one pending job.\<close>

definition installed_db :: db where
  "installed_db = example_db\<lparr>sessions := [example_session\<lparr>accessToken := ''blob''\<rparr>],
     jobs := [example_job]\<rparr>"

definition example_profile :: shop_profile where
  "example_profile = no_profile\<lparr>name := Some ''A Shop''\<rparr>"


text \<open>Install, uninstall, reinstall with a new credential.\<close>

definition example_ops :: "op list" where
  "example_ops =
     [AfterAuth store_up (1, 2) 100 example_session True (Some [example_profile]),
      AppUninstalled store_up 200 ''a.example'',
      AfterAuth store_up (3, 4) 300 (example_session\<lparr>accessToken := ''shpat_2''\<rparr>) True
        (Some [example_profile])]"

text \<open>A health check whose queries all answer.\<close>

definition example_reads :: health_reads where
  "example_reads = \<lparr>webhookWaiting = Inr 2, webhookActive = Inr 1, webhookFailed = Inr 0,
     generalWaiting = Inr 3, generalActive = Inr 4\<rparr>"

text \<open>A shutdown that finds one active webhook job and then gets a second SIGTERM.\<close>

definition example_forced :: "event list" where
  "example_forced =
     begin_shutdown SIGTERM @ [Settled (Inr 1), Settled (Inr 0), Signal SIGTERM]"


text \<open>
  The known tenant installed with a first credential (session store and hook) and
  then uninstalled at time 200.
\<close>

definition uninstalled_db :: db where
  "uninstalled_db =
     run_ops (specVault ''key'')
       [StoreSession store_up (1, 2, 3) 100 example_session,
        AfterAuth store_up (4, 5) 100 example_session True (Some [example_profile]),
        AppUninstalled store_up 200 ''a.example'']
       example_db"

text \<open>The session store of the reinstall, with the new credential.\<close>

definition reinstall_stored :: "(error + bool) \<times> session \<times> db" where
  "reinstall_stored =
     storeSession (specVault ''key'') store_up (6, 7, 8) 300
       (example_session\<lparr>accessToken := ''shpat_2''\<rparr>) uninstalled_db"

section \<open>Properties of the store's operations\<close>



lemmas handler_defs =
  storeSession_def storeSession_try_def super_storeSession_def session_upsert_def
  loadSession_def loadSession_try_def super_loadSession_def session_findUnique_def
  afterAuth_def afterAuth_try_def APP_UNINSTALLED_def APP_UNINSTALLED_try_def
  SHOP_REDACT_def SHOP_REDACT_try_def shop_upsert_def shop_update_def shop_delete_def
  session_deleteMany_def


section \<open>Uninstall\<close>

text \<open>
  C4. When the tenant row for \<open>k\<close> exists and the store answers, the
  \<open>APP_UNINSTALLED\<close> callback returns normally and leaves the store as it was but
  for that one row, which is still there and differs from the old row in exactly
  two fields: \<open>isActive\<close> is false and \<open>uninstalledAt\<close> is the current time. The
  encrypted credential, the profile and every other field, every other row and every
  other table are unchanged.
\<close>

theorem APP_UNINSTALLED_marks_row:
  assumes "shops d k = Some r" and "\<not> shopTableDown F"
  shows "APP_UNINSTALLED F now k d =
           (Inr (), d\<lparr>shops := (shops d)(k \<mapsto> r\<lparr>isActive := False, uninstalledAt := Some now\<rparr>)\<rparr>)"
  using assms by (simp add: APP_UNINSTALLED_def APP_UNINSTALLED_try_def shop_update_def)

theorem APP_UNINSTALLED_marks_row_witness:
  "shops example_db ''a.example'' = Some example_row \<and> \<not> shopTableDown store_up \<and>
   APP_UNINSTALLED store_up 200 ''a.example'' example_db =
     (Inr (), example_db\<lparr>shops := (shops example_db)(''a.example'' \<mapsto>
        example_row\<lparr>isActive := False, uninstalledAt := Some 200\<rparr>)\<rparr>)"
  using APP_UNINSTALLED_marks_row [of example_db "''a.example''" example_row store_up 200]
  by (simp add: example_db_def store_up_def)

section \<open>The stand-in vault: round trip\<close>

lemma shift_back: "((a + n) mod 256 + (256 - n mod 256)) mod 256 = (a::nat) mod 256"
proof -
  define q where "q = n div 256"
  define r where "r = n mod 256"
  have n: "n = 256 * q + r" and r: "r < 256"
    by (simp_all add: q_def r_def)
  have "((a + n) mod 256 + (256 - r)) mod 256 = ((a + n) + (256 - r)) mod 256"
    by (rule mod_add_left_eq)
  also have "(a + n) + (256 - r) = a + 256 * Suc q"
    using n r by simp
  also have "(a + 256 * Suc q) mod 256 = a mod 256"
    by (rule mod_mult_self2)
  finally show ?thesis
    by (simp add: r_def)
qed

lemma unshift_shift [simp]: "unshift_char n (shift_char n c) = c"
proof -
  have "char_of (((of_char c + n) mod 256 + (256 - n mod 256)) mod 256) = char_of ((of_char c :: nat) mod 256)"
    by (simp only: shift_back)
  then show ?thesis
    by (simp add: unshift_char_def shift_char_def)
qed

lemma inj_shift_char: "inj (shift_char n)"
  by (rule inj_on_inverseI [where g = "unshift_char n"]) simp

lemma unmask_mask [simp]: "unmask key iv (mask key iv p) = p"
  by (simp add: unmask_def mask_def comp_def)

lemma length_mask [simp]: "length (mask key iv p) = length p"
  by (simp add: mask_def)

lemma length_iv_of [simp]: "length (iv_of n) = 4"
  by (simp add: iv_of_def)

lemma length_spec_encrypt: "length (spec_encrypt key n p) = 4 + length p"
  by (simp add: spec_encrypt_def Let_def)


lemma spec_decrypt_encrypt: "spec_decrypt key (spec_encrypt key n p) = Inr p"
  by (simp add: spec_decrypt_def spec_encrypt_def Let_def)

section \<open>Encrypted session storage\<close>





section \<open>Store and load never throw\<close>

lemma storeSession_catches:
  "storeSession_try V F ns now s d = (Inl e, s', d')
     \<Longrightarrow> storeSession V F ns now s d = (Inr False, s', d')"
  by (simp add: storeSession_def)

lemma storeSession_returns: "\<exists>b s' d'. storeSession V F ns now s d = (Inr b, s', d')"
  by (cases "storeSession_try V F ns now s d" rule: prod_cases3)
     (auto simp: storeSession_def split: sum.splits)

lemma loadSession_returns: "\<exists>r. loadSession V F i d = Inr r"
  by (simp add: loadSession_def split: sum.splits)

text \<open>
  C10. \<open>storeSession\<close> always returns a boolean and \<open>loadSession\<close> always returns a
  session or \<open>undefined\<close>: neither rejects, whatever the vault, the store and the
  inputs do. Whenever the \<open>try\<close> block of \<open>storeSession\<close> throws, the answer is
  \<open>false\<close>; in particular when an \<open>encryptToken\<close> call throws, when the session
  table is unreachable, and when the shop upsert is reached and fails. Whenever the
  \<open>try\<close> block of \<open>loadSession\<close> throws, the answer is \<open>undefined\<close>; in
  particular when the session table is unreachable and when \<open>decryptToken\<close> fails
  on the stored token.
\<close>

theorem storeSession_loadSession_never_throw:
  "(\<exists>b s' d'. storeSession V F ns now s d = (Inr b, s', d'))
   \<and> (\<forall>e s' d'. storeSession_try V F ns now s d = (Inl e, s', d')
          \<longrightarrow> storeSession V F ns now s d = (Inr False, s', d'))
   \<and> (accessToken s \<noteq> [] \<and> (\<exists>e. encryptToken V (fst ns) (accessToken s) = Inl e)
          \<longrightarrow> fst (storeSession V F ns now s d) = Inr False)
   \<and> (sessionTableDown F \<longrightarrow> fst (storeSession V F ns now s d) = Inr False)
   \<and> (accessToken s \<noteq> [] \<and> sessShop s \<noteq> [] \<and>
        (shopTableDown F \<or> (\<exists>e. encryptToken V (fst (snd ns)) (accessToken s) = Inl e)
           \<or> (\<exists>e. encryptToken V (snd (snd ns)) (accessToken s) = Inl e))
          \<longrightarrow> fst (storeSession V F ns now s d) = Inr False)
   \<and> (\<exists>r. loadSession V F i d = Inr r)
   \<and> (\<forall>e. loadSession_try V F i d = Inl e \<longrightarrow> loadSession V F i d = Inr None)
   \<and> (sessionTableDown F \<longrightarrow> loadSession V F i d = Inr None)
   \<and> (\<forall>r e. find (\<lambda>r. sessId r = i) (sessions d) = Some r \<and> accessToken r \<noteq> []
          \<and> decryptToken V (accessToken r) = Inl e \<longrightarrow> loadSession V F i d = Inr None)"
proof (intro conjI)
  show "\<exists>b s' d'. storeSession V F ns now s d = (Inr b, s', d')"
    by (rule storeSession_returns)
  show "\<forall>e s' d'. storeSession_try V F ns now s d = (Inl e, s', d')
          \<longrightarrow> storeSession V F ns now s d = (Inr False, s', d')"
    by (simp add: storeSession_catches)
  show "accessToken s \<noteq> [] \<and> (\<exists>e. encryptToken V (fst ns) (accessToken s) = Inl e)
          \<longrightarrow> fst (storeSession V F ns now s d) = Inr False"
    by (auto simp: storeSession_def storeSession_try_def split: prod.splits)
  show "sessionTableDown F \<longrightarrow> fst (storeSession V F ns now s d) = Inr False"
    by (auto simp: storeSession_def storeSession_try_def super_storeSession_def
          session_upsert_def Let_def split: prod.splits sum.splits)
  show "accessToken s \<noteq> [] \<and> sessShop s \<noteq> [] \<and>
        (shopTableDown F \<or> (\<exists>e. encryptToken V (fst (snd ns)) (accessToken s) = Inl e)
           \<or> (\<exists>e. encryptToken V (snd (snd ns)) (accessToken s) = Inl e))
          \<longrightarrow> fst (storeSession V F ns now s d) = Inr False"
    by (auto simp: storeSession_def storeSession_try_def shop_upsert_def Let_def
          split: prod.splits sum.splits)
  show "\<exists>r. loadSession V F i d = Inr r"
    by (rule loadSession_returns)
  show "\<forall>e. loadSession_try V F i d = Inl e \<longrightarrow> loadSession V F i d = Inr None"
    by (simp add: loadSession_def)
  show "sessionTableDown F \<longrightarrow> loadSession V F i d = Inr None"
    by (simp add: loadSession_def loadSession_try_def super_loadSession_def
          session_findUnique_def)
  show "\<forall>r e. find (\<lambda>r. sessId r = i) (sessions d) = Some r \<and> accessToken r \<noteq> []
          \<and> decryptToken V (accessToken r) = Inl e \<longrightarrow> loadSession V F i d = Inr None"
    by (auto simp: loadSession_def loadSession_try_def super_loadSession_def
          session_findUnique_def)
qed

theorem storeSession_loadSession_never_throw_witness:
  "accessToken example_session \<noteq> [] \<and> sessShop example_session \<noteq> []
   \<and> shopTableDown (store_up\<lparr>shopTableDown := True\<rparr>)
   \<and> (\<exists>s' d'. storeSession_try (specVault ''key'') (store_up\<lparr>shopTableDown := True\<rparr>)
                   (1, 2, 3) 150 example_session example_db = (Inl StoreUnavailable, s', d'))
   \<and> fst (storeSession (specVault ''key'') (store_up\<lparr>shopTableDown := True\<rparr>)
             (1, 2, 3) 150 example_session example_db) = Inr False
   \<and> sessionTableDown (store_up\<lparr>sessionTableDown := True\<rparr>)
   \<and> loadSession (specVault ''key'') (store_up\<lparr>sessionTableDown := True\<rparr>)
        ''offline_a.example'' installed_db = Inr None
   \<and> encryptToken brokenVault 1 (accessToken example_session) = Inl EncryptionError
   \<and> fst (storeSession brokenVault store_up (1, 2, 3) 150 example_session example_db)
        = Inr False"
proof -
  let ?F1 = "store_up\<lparr>shopTableDown := True\<rparr>"
  let ?F2 = "store_up\<lparr>sessionTableDown := True\<rparr>"
  have h1: "accessToken example_session \<noteq> [] \<and> sessShop example_session \<noteq> []
            \<and> shopTableDown ?F1"
    by (simp add: example_session_def)
  have h2: "sessionTableDown ?F2"
    by simp
  have c1: "fst (storeSession (specVault ''key'') ?F1 (1, 2, 3) 150 example_session example_db)
              = Inr False"
    using h1 storeSession_loadSession_never_throw
            [of "specVault ''key''" ?F1 "(1, 2, 3)" 150 example_session example_db]
    by blast
  have c2: "loadSession (specVault ''key'') ?F2 ''offline_a.example'' installed_db = Inr None"
    using h2 storeSession_loadSession_never_throw
            [where V = "specVault ''key''" and F = ?F2 and i = "''offline_a.example''"
               and d = installed_db]
    by blast
  have t: "\<exists>s' d'. storeSession_try (specVault ''key'') ?F1 (1, 2, 3) 150 example_session
                      example_db = (Inl StoreUnavailable, s', d')"
    by (simp add: example_session_def store_up_def storeSession_try_def specVault_def
          super_storeSession_def session_upsert_def shop_upsert_def example_db_def
          empty_db_def Let_def)
  have h3: "accessToken example_session \<noteq> []
            \<and> (\<exists>e. encryptToken brokenVault (fst (1, 2, 3)) (accessToken example_session) = Inl e)"
    by (simp add: example_session_def brokenVault_def)
  have c3: "fst (storeSession brokenVault store_up (1, 2, 3) 150 example_session example_db)
              = Inr False"
    using h3 storeSession_loadSession_never_throw
            [of brokenVault store_up "(1, 2, 3)" 150 example_session example_db]
    by blast
  have e3: "encryptToken brokenVault 1 (accessToken example_session) = Inl EncryptionError"
    by (simp add: brokenVault_def)
  show ?thesis
    using h1 h2 c1 c2 t c3 e3 by blast
qed

section \<open>Redact\<close>

text \<open>
  C5. What the \<open>SHOP_REDACT\<close> callback does for an installed tenant, one whose row
  exists and for whom a session is stored: \<open>prisma.shop.delete\<close> runs first and is
  refused by the foreign key of \<open>sessions\<close> (ON DELETE RESTRICT), the \<open>catch\<close>
  swallows the error, \<open>prisma.session.deleteMany\<close> is never reached, and the store
  is left exactly as it was: the tenant row and the session are still there.
\<close>

theorem SHOP_REDACT_blocked_by_session:
  "shops installed_db ''a.example'' = Some example_row
   \<and> sessions installed_db = [example_session\<lparr>accessToken := ''blob''\<rparr>]
   \<and> SHOP_REDACT store_up ''a.example'' installed_db = (Inr (), installed_db)"
  by (simp add: handler_defs installed_db_def example_db_def store_up_def example_session_def)

lemma SHOP_REDACT_refused:
  assumes "find (\<lambda>r. sessShop r = k) (sessions d) \<noteq> None"
  shows "SHOP_REDACT F k d = (Inr (), d)"
  using assms by (simp add: SHOP_REDACT_def SHOP_REDACT_try_def shop_delete_def)

lemma SHOP_REDACT_without_sessions:
  assumes "shops d k \<noteq> None" and "find (\<lambda>r. sessShop r = k) (sessions d) = None"
      and "\<not> shopTableDown F" and "\<not> sessionTableDown F"
  shows "shops (snd (SHOP_REDACT F k d)) k = None"
    and "find (\<lambda>r. sessShop r = k) (sessions (snd (SHOP_REDACT F k d))) = None"
  using assms
  by (simp_all add: SHOP_REDACT_def SHOP_REDACT_try_def shop_delete_def session_deleteMany_def
        find_None_iff)

lemma SHOP_REDACT_jobs: "jobs (snd (SHOP_REDACT F k d)) = jobs d"
  by (simp add: SHOP_REDACT_def SHOP_REDACT_try_def shop_delete_def session_deleteMany_def
        split: sum.splits)

section \<open>Install, uninstall, reinstall\<close>

lemma afterAuth_upsert:
  assumes "encryptToken V n1 (accessToken s) = Inr cc"
      and "encryptToken V n2 (accessToken s) = Inr cu"
      and "\<not> shopTableDown F"
  shows "shops (snd (afterAuth V F (n1, n2) now s True (Some (p # ps)) d)) (sessShop s) =
           Some (case shops d (sessShop s) of
                   None \<Rightarrow> (new_shop (sessShop s) now)
                               \<lparr>profile := p, accessTokenEncrypted := Some cc,
                                isActive := True, installedAt := now\<rparr>
                 | Some r \<Rightarrow> r\<lparr>profile := p, accessTokenEncrypted := Some cu,
                               isActive := True, uninstalledAt := None\<rparr>)"
  using assms by (simp add: afterAuth_def afterAuth_try_def shop_upsert_def)

lemma afterAuth_installs:
  assumes "encryptToken V n1 (accessToken s) = Inr cc"
      and "encryptToken V n2 (accessToken s) = Inr cu"
      and "\<not> shopTableDown F"
  shows "\<exists>r c. shops (snd (afterAuth V F (n1, n2) now s True (Some (p # ps)) d)) (sessShop s)
                  = Some r
              \<and> isActive r \<and> uninstalledAt r = None \<and> profile r = p
              \<and> accessTokenEncrypted r = Some c \<and> (c = cc \<or> c = cu)"
  using afterAuth_upsert [OF assms, of now p ps d]
  by (cases "shops d (sessShop s)") (simp_all add: new_shop_def)

text \<open>
  The upsert of \<open>storeSession\<close> itself, on a row that exists, replaces the credential
  and sets \<open>isActive\<close>; it leaves \<open>uninstalledAt\<close> and the profile as they are.
\<close>

lemma storeSession_upsert_existing:
  assumes "storeSession V F ns now s d = (Inr True, s', d')"
      and "accessToken s \<noteq> []" and "sessShop s \<noteq> []"
      and "shops d (sessShop s) = Some r"
  shows "\<exists>c. shops d' (sessShop s) = Some (r\<lparr>accessTokenEncrypted := Some c, isActive := True\<rparr>)"
  using assms
  by (auto simp: storeSession_def storeSession_try_def super_storeSession_def
        session_upsert_def shop_upsert_def Let_def
        split: prod.splits sum.splits if_splits)

text \<open>
  The upsert of the hook alone does what a reinstall should. Take as install with
  credential \<open>c\<close> for tenant \<open>k\<close> the
  \<open>afterAuth\<close> hook called with a session of shop \<open>k\<close> whose \<open>accessToken\<close> is
  \<open>c\<close>, after \<open>registerWebhooks\<close> returned and \<open>Shop.all\<close> answered a shop. For
  every tenant \<open>k\<close>, credentials \<open>c1\<close> and \<open>c2\<close> and starting store: after install
  with \<open>c1\<close>, the \<open>APP_UNINSTALLED\<close> callback, and install with \<open>c2\<close>, where the
  vault encrypts \<open>c2\<close> to blobs that decrypt to \<open>c2\<close> and the shop table answers the
  last upsert, the row of \<open>k\<close> exists with \<open>isActive\<close> true, \<open>uninstalledAt\<close>
  null, and a stored credential that decrypts to \<open>c2\<close>.
\<close>

theorem reinstall_restores_tenant:
  assumes vault: "\<forall>n. \<exists>c. encryptToken V n c2 = Inr c \<and> decryptToken V c = Inr c2"
      and s1: "sessShop s1 = k" "accessToken s1 = c1"
      and s2: "sessShop s2 = k" "accessToken s2 = c2"
      and up: "\<not> shopTableDown F3"
  shows "\<exists>r c. shops (snd (afterAuth V F3 ns3 t3 s2 True (Some (p2 # ps2))
                    (snd (APP_UNINSTALLED F2 t2 k
                       (snd (afterAuth V F1 ns1 t1 s1 True (Some (p1 # ps1)) d0)))))) k = Some r
              \<and> isActive r \<and> uninstalledAt r = None
              \<and> accessTokenEncrypted r = Some c \<and> decryptToken V c = Inr c2"
proof -
  obtain n1 n2 where ns3: "ns3 = (n1, n2)"
    by (cases ns3)
  obtain cc where cc: "encryptToken V n1 c2 = Inr cc" "decryptToken V cc = Inr c2"
    using vault by blast
  obtain cu where cu: "encryptToken V n2 c2 = Inr cu" "decryptToken V cu = Inr c2"
    using vault by blast
  define d2 where "d2 = snd (APP_UNINSTALLED F2 t2 k
                       (snd (afterAuth V F1 ns1 t1 s1 True (Some (p1 # ps1)) d0)))"
  have "shops (snd (afterAuth V F3 (n1, n2) t3 s2 True (Some (p2 # ps2)) d2)) (sessShop s2) =
           Some (case shops d2 (sessShop s2) of
                   None \<Rightarrow> (new_shop (sessShop s2) t3)
                               \<lparr>profile := p2, accessTokenEncrypted := Some cc,
                                isActive := True, installedAt := t3\<rparr>
                 | Some r \<Rightarrow> r\<lparr>profile := p2, accessTokenEncrypted := Some cu,
                               isActive := True, uninstalledAt := None\<rparr>)"
    using cc(1) cu(1) up by (intro afterAuth_upsert) (simp_all add: s2)
  then show ?thesis
    using cc(2) cu(2) unfolding d2_def [symmetric] ns3 s2
    by (cases "shops d2 k") (simp_all add: new_shop_def)
qed

theorem reinstall_restores_tenant_witness:
  "(\<forall>n. \<exists>c. encryptToken (specVault ''key'') n ''shpat_2'' = Inr c
            \<and> decryptToken (specVault ''key'') c = Inr ''shpat_2'')
   \<and> sessShop example_session = ''a.example'' \<and> accessToken example_session = ''shpat_1''
   \<and> \<not> shopTableDown store_up
   \<and> (\<exists>r. shops (run_ops (specVault ''key'') (take 2 example_ops) empty_db) ''a.example''
              = Some r \<and> \<not> isActive r \<and> uninstalledAt r = Some 200)
   \<and> (\<exists>r c. shops (run_ops (specVault ''key'') example_ops empty_db) ''a.example'' = Some r
          \<and> isActive r \<and> uninstalledAt r = None
          \<and> accessTokenEncrypted r = Some c
          \<and> decryptToken (specVault ''key'') c = Inr ''shpat_2'')"
proof -
  have v: "\<forall>n. \<exists>c. encryptToken (specVault ''key'') n ''shpat_2'' = Inr c
            \<and> decryptToken (specVault ''key'') c = Inr ''shpat_2''"
    by (simp add: specVault_def spec_decrypt_encrypt)
  have s1: "sessShop example_session = ''a.example''" "accessToken example_session = ''shpat_1''"
    by (simp_all add: example_session_def)
  have s2: "sessShop (example_session\<lparr>accessToken := ''shpat_2''\<rparr>) = ''a.example''"
           "accessToken (example_session\<lparr>accessToken := ''shpat_2''\<rparr>) = ''shpat_2''"
    by (simp_all add: example_session_def)
  have up: "\<not> shopTableDown store_up"
    by (simp add: store_up_def)
  have mid: "\<exists>r. shops (run_ops (specVault ''key'') (take 2 example_ops) empty_db) ''a.example''
              = Some r \<and> \<not> isActive r \<and> uninstalledAt r = Some 200"
    by (simp add: example_ops_def afterAuth_def afterAuth_try_def APP_UNINSTALLED_def
          APP_UNINSTALLED_try_def shop_upsert_def shop_update_def specVault_def
          store_up_def empty_db_def example_session_def new_shop_def)
  have fin: "\<exists>r c. shops (run_ops (specVault ''key'') example_ops empty_db) ''a.example'' = Some r
          \<and> isActive r \<and> uninstalledAt r = None
          \<and> accessTokenEncrypted r = Some c
          \<and> decryptToken (specVault ''key'') c = Inr ''shpat_2''"
    using reinstall_restores_tenant [OF v s1 s2 up, of "(3, 4)" 300 example_profile "[]"
            store_up 200 store_up "(1, 2)" 100 example_profile "[]" empty_db]
    by (simp add: example_ops_def)
  show ?thesis
    using v s1 up mid fin by blast
qed

lemma uninstalled_db_row:
  "shops uninstalled_db ''a.example'' =
     Some (example_row\<lparr>profile := example_profile,
             accessTokenEncrypted := Some (spec_encrypt ''key'' 5 ''shpat_1''),
             isActive := False, uninstalledAt := Some 200\<rparr>)"
  by (simp add: uninstalled_db_def handler_defs Let_def specVault_def example_db_def
        empty_db_def example_session_def store_up_def example_row_def new_shop_def)

lemma reinstall_stored_eq:
  "reinstall_stored =
     (Inr True,
      example_session\<lparr>accessToken := spec_encrypt ''key'' 6 ''shpat_2''\<rparr>,
      uninstalled_db
        \<lparr>sessions := upsert_row (example_session\<lparr>accessToken := spec_encrypt ''key'' 6 ''shpat_2''\<rparr>)
                       (sessions uninstalled_db),
         shops := (shops uninstalled_db)(''a.example'' \<mapsto>
            example_row\<lparr>profile := example_profile,
              accessTokenEncrypted := Some (spec_encrypt ''key'' 8 ''shpat_2''),
              isActive := True, uninstalledAt := Some 200\<rparr>)\<rparr>)"
  by (simp add: reinstall_stored_def storeSession_def storeSession_try_def
        super_storeSession_def session_upsert_def shop_upsert_def Let_def specVault_def
        uninstalled_db_row example_session_def store_up_def example_row_def new_shop_def)

text \<open>
  C2. What the code does on a reinstall. The tenant \<open>a.example\<close> was installed with
  \<open>shpat_1\<close> and uninstalled at time 200; now it authorizes again with \<open>shpat_2\<close>.
  The session store runs first and answers \<open>true\<close>: its upsert has set \<open>isActive\<close>
  and stored the new credential, and has left \<open>uninstalledAt\<close> at 200. Then the
  \<open>afterAuth\<close> hook runs. If \<open>Shop.all\<close> throws, the hook's \<open>catch\<close> swallows it and
  the row stays as the session store left it: active, with \<open>uninstalledAt\<close> 200. If
  the hook is handed the session object the session store was called with, whose
  \<open>accessToken\<close> now is the ciphertext, and its platform calls answer, it stores an
  encryption of that ciphertext: the credential of the row decrypts to the ciphertext,
  not to \<open>shpat_2\<close>.
\<close>

theorem reinstall_keeps_uninstalledAt:
  "fst reinstall_stored = Inr True
   \<and> map_option isActive (shops (snd (snd reinstall_stored)) ''a.example'') = Some True
   \<and> map_option uninstalledAt (shops (snd (snd reinstall_stored)) ''a.example'')
        = Some (Some 200)
   \<and> map_option isActive
        (shops (snd (afterAuth (specVault ''key'') store_up (9, 10) 300
                       (example_session\<lparr>accessToken := ''shpat_2''\<rparr>) True None
                       (snd (snd reinstall_stored)))) ''a.example'') = Some True
   \<and> map_option uninstalledAt
        (shops (snd (afterAuth (specVault ''key'') store_up (9, 10) 300
                       (example_session\<lparr>accessToken := ''shpat_2''\<rparr>) True None
                       (snd (snd reinstall_stored)))) ''a.example'') = Some (Some 200)
   \<and> accessToken (fst (snd reinstall_stored)) = spec_encrypt ''key'' 6 ''shpat_2''
   \<and> spec_encrypt ''key'' 6 ''shpat_2'' \<noteq> ''shpat_2''
   \<and> map_option (\<lambda>r. map_option (decryptToken (specVault ''key'')) (accessTokenEncrypted r))
        (shops (snd (afterAuth (specVault ''key'') store_up (9, 10) 300
                       (fst (snd reinstall_stored)) True (Some [example_profile])
                       (snd (snd reinstall_stored)))) ''a.example'')
        = Some (Some (Inr (spec_encrypt ''key'' 6 ''shpat_2'')))"
proof -
  have "length (spec_encrypt ''key'' 6 ''shpat_2'') \<noteq> length ''shpat_2''"
    by (simp add: length_spec_encrypt)
  then have ne: "spec_encrypt ''key'' 6 ''shpat_2'' \<noteq> ''shpat_2''"
    by auto
  show ?thesis
    using ne
    by (simp add: reinstall_stored_eq afterAuth_def afterAuth_try_def shop_upsert_def
          specVault_def spec_decrypt_encrypt store_up_def example_session_def)
qed

section \<open>The invariant of the tenant table\<close>

lemma apply_op_invariant:
  "credential_invariant d \<Longrightarrow> credential_invariant (apply_op V x d)"
  by (cases x)
     (auto simp: credential_invariant_def handler_defs Let_def
           split: prod.splits sum.splits if_splits option.splits list.splits)

lemma run_ops_invariant:
  "credential_invariant d \<Longrightarrow> credential_invariant (run_ops V xs d)"
  by (induction xs arbitrary: d) (simp_all add: apply_op_invariant)

text \<open>
  C6. An active row has a credential: the invariant holds of the empty store, every
  operation that writes tenant state (session store, \<open>afterAuth\<close> upsert, uninstall,
  redact; with any inputs, any vault and any failures of the store) preserves it, and
  so it holds after every sequence of these operations from the empty store.
\<close>

theorem credential_invariant_preserved:
  "credential_invariant empty_db
   \<and> (credential_invariant d \<longrightarrow> credential_invariant (apply_op V x d))
   \<and> credential_invariant (run_ops V xs empty_db)"
proof -
  have "credential_invariant empty_db"
    by (simp add: credential_invariant_def empty_db_def)
  then show ?thesis
    by (simp add: apply_op_invariant run_ops_invariant)
qed

theorem credential_invariant_preserved_witness:
  "credential_invariant (run_ops (specVault ''key'') example_ops empty_db)
   \<and> (\<exists>r. shops (run_ops (specVault ''key'') example_ops empty_db) ''a.example'' = Some r
          \<and> isActive r \<and> accessTokenEncrypted r \<noteq> None)"
proof -
  have "credential_invariant (run_ops (specVault ''key'') example_ops empty_db)"
    using credential_invariant_preserved [of empty_db "specVault ''key''" _ example_ops]
    by simp
  moreover have "\<exists>r. shops (run_ops (specVault ''key'') example_ops empty_db) ''a.example'' = Some r
          \<and> isActive r \<and> accessTokenEncrypted r \<noteq> None"
    by (simp add: example_ops_def afterAuth_def afterAuth_try_def APP_UNINSTALLED_def
          APP_UNINSTALLED_try_def shop_upsert_def shop_update_def specVault_def
          store_up_def empty_db_def example_session_def new_shop_def)
  ultimately show ?thesis
    by simp
qed

section \<open>The worker: what every run preserves\<close>

lemmas worker_defs =
  step_def on_signal_def gracefulShutdown_def settle_def sleep_over_def timeout_fired_def
  shutdown_catch_def process_exit_def logger_def

lemma step_exited [simp]: "exited w = Some c \<Longrightarrow> step e w = w"
  by (simp add: step_def)

lemma run_exited [simp]: "exited w = Some c \<Longrightarrow> run es w = w"
  by (induction es) simp_all

lemma run_append [simp]: "run (es @ fs) w = run fs (run es w)"
  by (induction es arbitrary: w) simp_all

lemma startWorker_invariant: "shutdown_invariant (startWorker ok)"
  by (simp add: shutdown_invariant_def startWorker_def logger_def process_exit_def
        forced_exit_logs_def Let_def)

lemma step_invariant: "shutdown_invariant w \<Longrightarrow> shutdown_invariant (step e w)"
proof (cases "exited w")
  case (Some c)
  then show "shutdown_invariant w \<Longrightarrow> ?thesis" by simp
next
  case None
  assume inv: "shutdown_invariant w"
  show ?thesis
  proof (cases e)
    case (Signal sg)
    then show ?thesis
      using inv None
      by (cases sg) (auto simp: shutdown_invariant_def worker_defs forced_exit_logs_def)
  next
    case (Settled r)
    then show ?thesis
      using inv None
      by (cases "awaiting w"; cases r)
         (auto simp: shutdown_invariant_def worker_defs forced_exit_logs_def)
  next
    case SleepOver
    then show ?thesis
      using inv None by (auto simp: shutdown_invariant_def worker_defs)
  next
    case TimeoutFired
    then show ?thesis
      using inv None by (auto simp: shutdown_invariant_def worker_defs forced_exit_logs_def)
  next
    case (HealthTick q)
    then show ?thesis
      using inv None by (auto simp: shutdown_invariant_def worker_defs)
  qed
qed

lemma run_invariant: "shutdown_invariant w \<Longrightarrow> shutdown_invariant (run es w)"
  by (induction es arbitrary: w) (simp_all add: step_invariant)

lemma run_begin_shutdown:
  "run (begin_shutdown sg) (startWorker True) = w \<Longrightarrow>
     exited w = None \<and> awaiting w = ActiveWebhook \<and> shutdownTimeout w
     \<and> webhookPaused w \<and> generalPaused w \<and> isShuttingDown w \<and> activeJobs w = 0"
  by (cases sg) (auto simp: begin_shutdown_def startWorker_def worker_defs Let_def)

lemma run_busy_polls:
  assumes "exited w = None" and "awaiting w = ActiveWebhook"
      and "\<forall>(n, m) \<in> set ps. n + m > 0"
  shows "exited (run (busy_polls ps) w) = None
       \<and> awaiting (run (busy_polls ps) w) = ActiveWebhook
       \<and> shutdownTimeout (run (busy_polls ps) w) = shutdownTimeout w
       \<and> webhookPaused (run (busy_polls ps) w) = webhookPaused w
       \<and> generalPaused (run (busy_polls ps) w) = generalPaused w
       \<and> isShuttingDown (run (busy_polls ps) w) = isShuttingDown w"
  using assms
proof (induction ps arbitrary: w)
  case Nil
  then show ?case by simp
next
  case (Cons p ps)
  obtain n m where p: "p = (n, m)" by (cases p)
  let ?w = "run [Settled (Inr n), Settled (Inr m), SleepOver] w"
  have pos: "n + m > 0" using Cons.prems(3) p by simp
  have w': "exited ?w = None \<and> awaiting ?w = ActiveWebhook
          \<and> shutdownTimeout ?w = shutdownTimeout w \<and> webhookPaused ?w = webhookPaused w
          \<and> generalPaused ?w = generalPaused w \<and> isShuttingDown ?w = isShuttingDown w"
    using Cons.prems(1,2) pos by (simp add: worker_defs)
  have rest: "\<forall>(n, m) \<in> set ps. n + m > 0" using Cons.prems(3) by simp
  have "run (busy_polls (p # ps)) w = run (busy_polls ps) ?w"
    by (simp add: p)
  then show ?case
    using Cons.IH [of ?w] w' rest by simp
qed

lemma run_polling:
  assumes "\<forall>(n, m) \<in> set ps. n + m > 0"
      and "run (begin_shutdown sg @ busy_polls ps) (startWorker True) = w"
  shows "exited w = None \<and> awaiting w = ActiveWebhook \<and> shutdownTimeout w
       \<and> webhookPaused w \<and> generalPaused w \<and> isShuttingDown w"
proof -
  define w0 where "w0 = run (begin_shutdown sg) (startWorker True)"
  have b: "exited w0 = None \<and> awaiting w0 = ActiveWebhook \<and> shutdownTimeout w0
     \<and> webhookPaused w0 \<and> generalPaused w0 \<and> isShuttingDown w0 \<and> activeJobs w0 = 0"
    using run_begin_shutdown [of sg w0] by (simp add: w0_def)
  have "w = run (busy_polls ps) w0"
    using assms(2) by (simp add: w0_def)
  then show ?thesis
    using run_busy_polls [of w0 ps] b assms(1) by simp
qed

lemma finish_clean:
  assumes "exited w = None" and "awaiting w = ActiveWebhook"
  shows "exited (run [Settled (Inr 0), Settled (Inr 0), Settled (Inr 0), Settled (Inr 0)] w)
           = Some 0"
  using assms by (simp add: worker_defs)

lemma run_clean_shutdown:
  assumes "\<forall>(n, m) \<in> set ps. n + m > 0"
  shows "exited (run (clean_shutdown sg ps) (startWorker True)) = Some 0"
proof -
  define w where "w = run (begin_shutdown sg @ busy_polls ps) (startWorker True)"
  have "exited w = None \<and> awaiting w = ActiveWebhook"
    using run_polling [OF assms, of sg w] by (simp add: w_def)
  then have "exited (run [Settled (Inr 0), Settled (Inr 0), Settled (Inr 0), Settled (Inr 0)] w)
           = Some 0"
    by (intro finish_clean) simp_all
  then show ?thesis
    by (simp add: clean_shutdown_def w_def)
qed

lemma run_timeout:
  assumes "\<forall>(n, m) \<in> set ps. n + m > 0"
  shows "exited (run (begin_shutdown sg @ busy_polls ps @ [TimeoutFired]) (startWorker True))
           = Some 1"
proof -
  define w where "w = run (begin_shutdown sg @ busy_polls ps) (startWorker True)"
  have "exited w = None \<and> shutdownTimeout w"
    using run_polling [OF assms, of sg w] by (simp add: w_def)
  then have "exited (step TimeoutFired w) = Some 1"
    by (simp add: worker_defs)
  then show ?thesis
    by (simp add: w_def)
qed

lemma forced_by_signal:
  "exited w = None \<Longrightarrow> isShuttingDown w \<Longrightarrow> exited (step (Signal sg) w) = Some 1"
  by (cases sg) (simp_all add: worker_defs)

lemma forced_by_timeout:
  "exited w = None \<Longrightarrow> shutdownTimeout w \<Longrightarrow> exited (step TimeoutFired w) = Some 1"
  by (simp add: worker_defs)

lemma forced_by_rejection:
  "exited w = None \<Longrightarrow> awaiting w \<noteq> Serving \<Longrightarrow> awaiting w \<noteq> Sleeping
     \<Longrightarrow> exited (step (Settled (Inl e)) w) = Some 1"
  by (cases "awaiting w") (simp_all add: worker_defs)


lemma inv_paused:
  assumes "shutdown_invariant w"
  shows "polling (awaiting w) \<or> shutdownTimeout w \<or> activeJobs w > 0
         \<longrightarrow> webhookPaused w \<and> generalPaused w"
proof -
  have a: "webhookPaused w \<longleftrightarrow> awaiting w \<noteq> Serving \<and> awaiting w \<noteq> PauseWebhook"
    and b: "generalPaused w \<longleftrightarrow> polling (awaiting w) \<or> awaiting w = CloseWebhook
                                  \<or> awaiting w = CloseGeneral"
    and c: "shutdownTimeout w \<longrightarrow> polling (awaiting w)"
    and d: "activeJobs w > 0 \<longrightarrow> polling (awaiting w)"
    using assms unfolding shutdown_invariant_def by blast+
  have "polling (awaiting w) \<Longrightarrow> awaiting w \<noteq> Serving \<and> awaiting w \<noteq> PauseWebhook"
    by (cases "awaiting w") simp_all
  then show ?thesis
    using a b c d by blast
qed

lemma inv_clean:
  assumes "shutdown_invariant w" and "exited w = Some 0"
  shows "awaiting w = CloseGeneral \<and> activeJobs w = 0 \<and> webhookPaused w \<and> generalPaused w
            \<and> webhookClosed w \<and> generalClosed w
            \<and> last (logged w) = Log INFO ''Worker shutdown complete'' Nothing"
proof -
  have a: "webhookPaused w \<longleftrightarrow> awaiting w \<noteq> Serving \<and> awaiting w \<noteq> PauseWebhook"
    and b: "generalPaused w \<longleftrightarrow> polling (awaiting w) \<or> awaiting w = CloseWebhook
                                  \<or> awaiting w = CloseGeneral"
    and d: "activeJobs w > 0 \<longrightarrow> polling (awaiting w)"
    and e: "webhookClosed w \<longleftrightarrow> awaiting w = CloseGeneral"
    and f: "generalClosed w \<longleftrightarrow> exited w = Some 0"
    and g: "exited w = Some 0 \<longrightarrow> awaiting w = CloseGeneral
             \<and> last (logged w) = Log INFO ''Worker shutdown complete'' Nothing"
    using assms(1) unfolding shutdown_invariant_def by blast+
  have cg: "awaiting w = CloseGeneral"
    using g assms(2) by blast
  then have "\<not> polling (awaiting w)"
    by simp
  then have "activeJobs w = 0"
    using d by simp
  then show ?thesis
    using a b e f g cg assms(2) by simp
qed

lemma inv_exit:
  assumes "shutdown_invariant w" and "exited w = Some c"
  shows "c = 0 \<or> c = 1 \<and> last (logged w) \<in> forced_exit_logs"
  using assms unfolding shutdown_invariant_def by blast

section \<open>The health check\<close>

text \<open>
  C7, as amended. A run of the health check whose five queries all answer logs one
  entry holding the waiting, active and failed counts of the webhook lane and the
  waiting and active counts of the general lane (no failed count of the general
  lane is asked for or logged), followed by a warning exactly when the failed count
  of the webhook lane exceeds 10. A run in which a query throws logs one error entry
  instead. In every case the worker goes on: the health check leaves the exit state,
  the position of the shutdown and \<open>isShuttingDown\<close> as they were and only appends
  what it logs.
\<close>

theorem healthCheck_reports_and_continues:
  "(webhookWaiting q = Inr a1 \<and> webhookActive q = Inr a2 \<and> webhookFailed q = Inr a3
      \<and> generalWaiting q = Inr b1 \<and> generalActive q = Inr b2 \<longrightarrow>
      healthCheck q =
        Log INFO ''Queue health check''
          (Fields [(''webhook'', Fields [(''waiting'', Count a1), (''active'', Count a2),
                                         (''failed'', Count a3)]),
                   (''general'', Fields [(''waiting'', Count b1), (''active'', Count b2)])])
        # (if a3 > 10
           then [Log WARN ''High webhook failure rate detected'' (Fields [(''failed'', Count a3)])]
           else []))
   \<and> ((\<exists>e. webhookWaiting q = Inl e \<or> webhookActive q = Inl e \<or> webhookFailed q = Inl e
            \<or> generalWaiting q = Inl e \<or> generalActive q = Inl e) \<longrightarrow>
        healthCheck q = [Log ERROR ''Queue health check failed:'' Thrown])
   \<and> exited (step (HealthTick q) w) = exited w
   \<and> awaiting (step (HealthTick q) w) = awaiting w
   \<and> isShuttingDown (step (HealthTick q) w) = isShuttingDown w
   \<and> (exited w = None \<longrightarrow> logged (step (HealthTick q) w) = logged w @ healthCheck q)"
proof (intro conjI)
  show "webhookWaiting q = Inr a1 \<and> webhookActive q = Inr a2 \<and> webhookFailed q = Inr a3
      \<and> generalWaiting q = Inr b1 \<and> generalActive q = Inr b2 \<longrightarrow>
      healthCheck q =
        Log INFO ''Queue health check''
          (Fields [(''webhook'', Fields [(''waiting'', Count a1), (''active'', Count a2),
                                         (''failed'', Count a3)]),
                   (''general'', Fields [(''waiting'', Count b1), (''active'', Count b2)])])
        # (if a3 > 10
           then [Log WARN ''High webhook failure rate detected'' (Fields [(''failed'', Count a3)])]
           else [])"
    by (simp add: healthCheck_def)
  show "(\<exists>e. webhookWaiting q = Inl e \<or> webhookActive q = Inl e \<or> webhookFailed q = Inl e
            \<or> generalWaiting q = Inl e \<or> generalActive q = Inl e) \<longrightarrow>
        healthCheck q = [Log ERROR ''Queue health check failed:'' Thrown]"
    by (auto simp: healthCheck_def split: sum.splits)
qed (simp_all add: step_def)

theorem healthCheck_reports_and_continues_witness:
  "webhookWaiting example_reads = Inr 2 \<and> webhookActive example_reads = Inr 1
   \<and> webhookFailed example_reads = Inr 0 \<and> generalWaiting example_reads = Inr 3
   \<and> generalActive example_reads = Inr 4
   \<and> healthCheck example_reads =
        [Log INFO ''Queue health check''
           (Fields [(''webhook'', Fields [(''waiting'', Count 2), (''active'', Count 1),
                                          (''failed'', Count 0)]),
                    (''general'', Fields [(''waiting'', Count 3), (''active'', Count 4)])])]
   \<and> exited (startWorker True) = None
   \<and> exited (step (HealthTick example_reads) (startWorker True)) = None
   \<and> logged (step (HealthTick example_reads) (startWorker True))
        = logged (startWorker True) @ healthCheck example_reads"
proof -
  have r: "webhookWaiting example_reads = Inr 2 \<and> webhookActive example_reads = Inr 1
   \<and> webhookFailed example_reads = Inr 0 \<and> generalWaiting example_reads = Inr 3
   \<and> generalActive example_reads = Inr 4"
    by (simp add: example_reads_def)
  have s: "exited (startWorker True) = None"
    by (simp add: startWorker_def logger_def)
  show ?thesis
    using r s healthCheck_reports_and_continues
                [of example_reads 2 1 0 3 4 "startWorker True"]
    by simp
qed

text \<open>
  C7 as stated fails. The one entry of a health check whose queries all answer has
  a failed count for the webhook lane and none for the general lane; and a health
  check in which a query throws emits no count at all.
\<close>

theorem healthCheck_counterexample:
  "length (healthCheck example_reads) = 1
   \<and> reported (hd (healthCheck example_reads)) ''webhook'' ''failed'' = Some 0
   \<and> reported (hd (healthCheck example_reads)) ''general'' ''active'' = Some 4
   \<and> reported (hd (healthCheck example_reads)) ''general'' ''failed'' = None
   \<and> healthCheck (example_reads\<lparr>generalWaiting := Inl StoreUnavailable\<rparr>)
        = [Log ERROR ''Queue health check failed:'' Thrown]"
  by (simp add: healthCheck_def example_reads_def)

section \<open>The shutdown sequence\<close>

text \<open>
  C8, as amended. At every moment of every run of a started worker: the shutdown polls
  (and the timeout is pending, and \<open>activeJobs\<close> is positive) only after both lanes
  were paused; the process has exited with code 0 only if the loop ended on a poll that
  found no active job, with both lanes paused and both queues closed; and if it has
  exited while the last poll had found active jobs, the code is 1 and the last log
  entry is that of a repeated trigger, of the timeout or of an error. The first trigger
  of any kind, signal or fault, pauses both lanes and arms the timeout; as long as the
  polls find active jobs the worker keeps polling and does not exit; when a poll finds
  none it closes the queues and exits with 0; when the timeout fires first it exits
  with 1.
\<close>

theorem gracefulShutdown_sequence:
  "(let w = run es (startWorker True) in
      (polling (awaiting w) \<or> shutdownTimeout w \<or> activeJobs w > 0
         \<longrightarrow> webhookPaused w \<and> generalPaused w)
      \<and> (exited w = Some 0 \<longrightarrow>
            awaiting w = CloseGeneral \<and> activeJobs w = 0 \<and> webhookPaused w \<and> generalPaused w
            \<and> webhookClosed w \<and> generalClosed w)
      \<and> (\<forall>c. exited w = Some c \<and> activeJobs w > 0 \<longrightarrow>
            c = 1 \<and> last (logged w) \<in> forced_exit_logs))
   \<and> ((\<forall>(n, m) \<in> set ps. n + m > 0) \<longrightarrow>
        (let w = run (begin_shutdown sg @ busy_polls ps) (startWorker True) in
           exited w = None \<and> awaiting w = ActiveWebhook \<and> shutdownTimeout w
           \<and> webhookPaused w \<and> generalPaused w)
        \<and> exited (run (clean_shutdown sg ps) (startWorker True)) = Some 0
        \<and> exited (run (begin_shutdown sg @ busy_polls ps @ [TimeoutFired]) (startWorker True))
            = Some 1)"
proof -
  define w where "w = run es (startWorker True)"
  have inv: "shutdown_invariant w"
    unfolding w_def by (intro run_invariant startWorker_invariant)
  have 1: "polling (awaiting w) \<or> shutdownTimeout w \<or> activeJobs w > 0
         \<longrightarrow> webhookPaused w \<and> generalPaused w"
    using inv by (rule inv_paused)
  have 2: "exited w = Some 0 \<longrightarrow>
            awaiting w = CloseGeneral \<and> activeJobs w = 0 \<and> webhookPaused w \<and> generalPaused w
            \<and> webhookClosed w \<and> generalClosed w"
  proof
    assume "exited w = Some 0"
    from inv_clean [OF inv this]
    show "awaiting w = CloseGeneral \<and> activeJobs w = 0 \<and> webhookPaused w \<and> generalPaused w
            \<and> webhookClosed w \<and> generalClosed w"
      by simp
  qed
  have 3: "\<forall>c. exited w = Some c \<and> activeJobs w > 0 \<longrightarrow>
            c = 1 \<and> last (logged w) \<in> forced_exit_logs"
  proof (intro allI impI)
    fix c
    assume h: "exited w = Some c \<and> activeJobs w > 0"
    then have "c \<noteq> 0"
      using inv_clean [OF inv, THEN conjunct2, THEN conjunct1] by force
    moreover have "c = 0 \<or> c = 1 \<and> last (logged w) \<in> forced_exit_logs"
      using inv_exit [OF inv] h by simp
    ultimately show "c = 1 \<and> last (logged w) \<in> forced_exit_logs"
      by simp
  qed
  have A: "let w = run es (startWorker True) in
      (polling (awaiting w) \<or> shutdownTimeout w \<or> activeJobs w > 0
         \<longrightarrow> webhookPaused w \<and> generalPaused w)
      \<and> (exited w = Some 0 \<longrightarrow>
            awaiting w = CloseGeneral \<and> activeJobs w = 0 \<and> webhookPaused w \<and> generalPaused w
            \<and> webhookClosed w \<and> generalClosed w)
      \<and> (\<forall>c. exited w = Some c \<and> activeJobs w > 0 \<longrightarrow>
            c = 1 \<and> last (logged w) \<in> forced_exit_logs)"
    unfolding Let_def w_def [symmetric] using 1 2 3 by (intro conjI)
  have B: "(\<forall>(n, m) \<in> set ps. n + m > 0) \<longrightarrow>
        (let w = run (begin_shutdown sg @ busy_polls ps) (startWorker True) in
           exited w = None \<and> awaiting w = ActiveWebhook \<and> shutdownTimeout w
           \<and> webhookPaused w \<and> generalPaused w)
        \<and> exited (run (clean_shutdown sg ps) (startWorker True)) = Some 0
        \<and> exited (run (begin_shutdown sg @ busy_polls ps @ [TimeoutFired]) (startWorker True))
            = Some 1"
  proof
    assume p: "\<forall>(n, m) \<in> set ps. n + m > 0"
    have "let w = run (begin_shutdown sg @ busy_polls ps) (startWorker True) in
           exited w = None \<and> awaiting w = ActiveWebhook \<and> shutdownTimeout w
           \<and> webhookPaused w \<and> generalPaused w"
      unfolding Let_def using run_polling [OF p refl, of sg] by simp
    then show "(let w = run (begin_shutdown sg @ busy_polls ps) (startWorker True) in
           exited w = None \<and> awaiting w = ActiveWebhook \<and> shutdownTimeout w
           \<and> webhookPaused w \<and> generalPaused w)
        \<and> exited (run (clean_shutdown sg ps) (startWorker True)) = Some 0
        \<and> exited (run (begin_shutdown sg @ busy_polls ps @ [TimeoutFired]) (startWorker True))
            = Some 1"
      using run_clean_shutdown [OF p, of sg] run_timeout [OF p, of sg] by (intro conjI)
  qed
  show ?thesis
    using A B by (rule conjI)
qed

theorem gracefulShutdown_sequence_witness:
  "(1::nat) + 0 > 0
   \<and> exited (run (clean_shutdown SIGTERM [(1, 0)]) (startWorker True)) = Some 0
   \<and> awaiting (run (clean_shutdown SIGTERM [(1, 0)]) (startWorker True)) = CloseGeneral
   \<and> activeJobs (run (clean_shutdown SIGTERM [(1, 0)]) (startWorker True)) = 0
   \<and> webhookPaused (run (clean_shutdown SIGTERM [(1, 0)]) (startWorker True))
   \<and> generalPaused (run (clean_shutdown SIGTERM [(1, 0)]) (startWorker True))
   \<and> exited (run (begin_shutdown SIGTERM @ busy_polls [(1, 0)] @ [TimeoutFired])
               (startWorker True)) = Some 1"
  using gracefulShutdown_sequence [of "clean_shutdown SIGTERM [(1, 0)]" "[(1, 0)]" SIGTERM]
  by (simp add: Let_def)

text \<open>
  C8 as stated fails. A second SIGTERM while the shutdown sleeps between polls exits
  at once with code 1: the last poll had found one active job and the timeout is still
  pending. And when the first \<open>pause()\<close> rejects, the process exits with no lane
  paused.
\<close>

theorem second_signal_counterexample:
  "exited (run example_forced (startWorker True)) = Some 1
   \<and> activeJobs (run example_forced (startWorker True)) = 1
   \<and> shutdownTimeout (run example_forced (startWorker True))
   \<and> last (logged (run example_forced (startWorker True)))
        = Log INFO ''Force shutdown requested'' Nothing
   \<and> exited (run [Signal SIGTERM, Settled (Inl StoreUnavailable)] (startWorker True)) = Some 1
   \<and> \<not> webhookPaused (run [Signal SIGTERM, Settled (Inl StoreUnavailable)] (startWorker True))"
  by (simp add: example_forced_def begin_shutdown_def startWorker_def worker_defs Let_def)

section \<open>Exit codes\<close>

text \<open>
  C9, as amended. A shutdown that finds no active job after any number of busy polls
  and closes both queues exits with code 0, whatever triggered it. A trigger that
  arrives while \<open>isShuttingDown\<close> is set, the timeout firing while it is pending, and a
  rejected queue call during the shutdown each exit with code 1, and so does a worker
  that fails to start. These are all the exits there are: whenever the process has
  exited, either the code is 0, the last log entry is "Worker shutdown complete", no
  active job was left and both queues are closed, or the code is 1 and the last log
  entry is that of a forced exit.
\<close>

theorem exit_codes:
  "((\<forall>(n, m) \<in> set ps. n + m > 0) \<longrightarrow>
        exited (run (clean_shutdown sg ps) (startWorker True)) = Some 0)
   \<and> (exited w = None \<and> isShuttingDown w \<longrightarrow> exited (step (Signal sg) w) = Some 1)
   \<and> (exited w = None \<and> shutdownTimeout w \<longrightarrow> exited (step TimeoutFired w) = Some 1)
   \<and> (exited w = None \<and> awaiting w \<noteq> Serving \<and> awaiting w \<noteq> Sleeping \<longrightarrow>
         exited (step (Settled (Inl e)) w) = Some 1)
   \<and> exited (startWorker False) = Some 1
   \<and> (\<forall>c. exited (run es (startWorker ok)) = Some c \<longrightarrow>
         c = 0 \<and> last (logged (run es (startWorker ok)))
                    = Log INFO ''Worker shutdown complete'' Nothing
               \<and> activeJobs (run es (startWorker ok)) = 0
               \<and> webhookClosed (run es (startWorker ok))
               \<and> generalClosed (run es (startWorker ok))
         \<or> c = 1 \<and> last (logged (run es (startWorker ok))) \<in> forced_exit_logs)"
proof (intro conjI)
  show "(\<forall>(n, m) \<in> set ps. n + m > 0) \<longrightarrow>
        exited (run (clean_shutdown sg ps) (startWorker True)) = Some 0"
    using run_clean_shutdown [of ps sg] by (rule impI)
  show "exited w = None \<and> isShuttingDown w \<longrightarrow> exited (step (Signal sg) w) = Some 1"
    using forced_by_signal [of w sg] by simp
  show "exited w = None \<and> shutdownTimeout w \<longrightarrow> exited (step TimeoutFired w) = Some 1"
    using forced_by_timeout [of w] by simp
  show "exited w = None \<and> awaiting w \<noteq> Serving \<and> awaiting w \<noteq> Sleeping \<longrightarrow>
         exited (step (Settled (Inl e)) w) = Some 1"
    using forced_by_rejection [of w e] by simp
  show "exited (startWorker False) = Some 1"
    by (simp add: startWorker_def process_exit_def logger_def)
  show "\<forall>c. exited (run es (startWorker ok)) = Some c \<longrightarrow>
         c = 0 \<and> last (logged (run es (startWorker ok)))
                    = Log INFO ''Worker shutdown complete'' Nothing
               \<and> activeJobs (run es (startWorker ok)) = 0
               \<and> webhookClosed (run es (startWorker ok))
               \<and> generalClosed (run es (startWorker ok))
         \<or> c = 1 \<and> last (logged (run es (startWorker ok))) \<in> forced_exit_logs"
  proof (intro allI impI)
    fix c
    define v where "v = run es (startWorker ok)"
    assume "exited (run es (startWorker ok)) = Some c"
    then have x: "exited v = Some c"
      by (simp add: v_def)
    have inv: "shutdown_invariant v"
      unfolding v_def by (intro run_invariant startWorker_invariant)
    have "c = 0 \<or> c = 1 \<and> last (logged v) \<in> forced_exit_logs"
      using inv_exit [OF inv x] .
    moreover have "c = 0 \<Longrightarrow> last (logged v) = Log INFO ''Worker shutdown complete'' Nothing
               \<and> activeJobs v = 0 \<and> webhookClosed v \<and> generalClosed v"
      using inv_clean [OF inv] x by simp
    ultimately show "c = 0 \<and> last (logged (run es (startWorker ok)))
                    = Log INFO ''Worker shutdown complete'' Nothing
               \<and> activeJobs (run es (startWorker ok)) = 0
               \<and> webhookClosed (run es (startWorker ok))
               \<and> generalClosed (run es (startWorker ok))
         \<or> c = 1 \<and> last (logged (run es (startWorker ok))) \<in> forced_exit_logs"
      unfolding v_def [symmetric] by blast
  qed
qed

theorem exit_codes_witness:
  "(1::nat) + 0 > 0
   \<and> exited (run (clean_shutdown SIGINT [(1, 0)]) (startWorker True)) = Some 0
   \<and> last (logged (run (clean_shutdown SIGINT [(1, 0)]) (startWorker True)))
        = Log INFO ''Worker shutdown complete'' Nothing
   \<and> exited (run (begin_shutdown SIGINT) (startWorker True)) = None
   \<and> isShuttingDown (run (begin_shutdown SIGINT) (startWorker True))
   \<and> shutdownTimeout (run (begin_shutdown SIGINT) (startWorker True))
   \<and> exited (step (Signal SIGINT) (run (begin_shutdown SIGINT) (startWorker True))) = Some 1
   \<and> exited (step TimeoutFired (run (begin_shutdown SIGINT) (startWorker True))) = Some 1
   \<and> exited (step (Settled (Inl StoreUnavailable))
               (run (begin_shutdown SIGINT) (startWorker True))) = Some 1"
proof -
  let ?w = "run (begin_shutdown SIGINT) (startWorker True)"
  have b: "exited ?w = None \<and> awaiting ?w = ActiveWebhook \<and> shutdownTimeout ?w
           \<and> isShuttingDown ?w"
    using run_begin_shutdown [of SIGINT ?w] by simp
  have p: "\<forall>(n, m) \<in> set [(1::nat, 0::nat)]. n + m > 0"
    by simp
  note t = exit_codes [of "[(1, 0)]" SIGINT ?w StoreUnavailable
                          "clean_shutdown SIGINT [(1, 0)]" True]
  have c: "exited (run (clean_shutdown SIGINT [(1, 0)]) (startWorker True)) = Some 0"
    using t p by blast
  then have l: "last (logged (run (clean_shutdown SIGINT [(1, 0)]) (startWorker True)))
        = Log INFO ''Worker shutdown complete'' Nothing"
    using t by auto
  have f: "exited (step (Signal SIGINT) ?w) = Some 1" "exited (step TimeoutFired ?w) = Some 1"
    "exited (step (Settled (Inl StoreUnavailable)) ?w) = Some 1"
    using t b by auto
  show ?thesis
    using b c l f by simp
qed

text \<open>
  C9 as stated fails. A shutdown triggered by an uncaught exception or an unhandled
  rejection that completes cleanly exits with code 0, not 1.
\<close>

theorem uncaught_fault_counterexample:
  "exited (run (clean_shutdown uncaughtException []) (startWorker True)) = Some 0
   \<and> exited (run (clean_shutdown unhandledRejection []) (startWorker True)) = Some 0"
  by (simp add: clean_shutdown_def begin_shutdown_def startWorker_def worker_defs Let_def)

section \<open>The dispatcher of the spec\<close>

lemma fold_max_ge: "(a::nat) \<le> fold max xs a \<and> (\<forall>x \<in> set xs. x \<le> fold max xs a)"
proof (induction xs arbitrary: a)
  case Nil
  then show ?case by simp
next
  case (Cons y ys)
  have "max y a \<le> fold max ys (max y a)" and "\<forall>x \<in> set ys. x \<le> fold max ys (max y a)"
    using Cons.IH [of "max y a"] by simp_all
  then show ?case by auto
qed

lemma next_id_fresh: "next_id xs \<notin> set xs"
  using fold_max_ge [of 0 xs] by (auto simp: next_id_def)

text \<open>
  C1. Every call of \<open>accept\<close> appends exactly one delivery row, with a fresh id that
  it returns, whatever \<open>signatureValid\<close> is; the row records the flag. When the
  signature is valid exactly one job is appended and the row links to it; when it is
  not, the job table is unchanged and the row links to no job.
\<close>

theorem accept_records_and_enqueues:
  assumes "accept k tpc h b qy valid d = (rid, d')"
  shows "\<exists>r. deliveries d' = deliveries d @ [r]
            \<and> deliveryId r = rid \<and> rid \<notin> set (map deliveryId (deliveries d))
            \<and> deliveryShop r = k \<and> topic r = tpc \<and> body r = b \<and> hmacValid r = valid
            \<and> (valid \<longrightarrow> (\<exists>j. jobs d' = jobs d @ [j] \<and> jobId r = Some (queueJobId j)
                               \<and> queueJobId j \<notin> set (map queueJobId (jobs d))))
            \<and> (\<not> valid \<longrightarrow> jobs d' = jobs d \<and> jobId r = None)"
  using assms next_id_fresh [of "map deliveryId (deliveries d)"]
    next_id_fresh [of "map queueJobId (jobs d)"]
  by (auto simp: accept_def Let_def new_job_def)

theorem accept_records_and_enqueues_witness:
  "(\<exists>rid d' r j. accept ''a.example'' ''app/uninstalled'' ''h'' ''{}'' ''q'' True installed_db
                    = (rid, d')
        \<and> deliveries d' = deliveries installed_db @ [r] \<and> hmacValid r
        \<and> jobs d' = jobs installed_db @ [j] \<and> jobId r = Some (queueJobId j))
   \<and> (\<exists>rid d' r. accept ''a.example'' ''app/uninstalled'' ''h'' ''{}'' ''q'' False installed_db
                    = (rid, d')
        \<and> deliveries d' = deliveries installed_db @ [r] \<and> \<not> hmacValid r
        \<and> jobs d' = jobs installed_db \<and> jobId r = None)"
proof -
  obtain rid1 d1 where a1: "accept ''a.example'' ''app/uninstalled'' ''h'' ''{}'' ''q'' True
                              installed_db = (rid1, d1)"
    by (cases "accept ''a.example'' ''app/uninstalled'' ''h'' ''{}'' ''q'' True installed_db")
  obtain rid2 d2 where a2: "accept ''a.example'' ''app/uninstalled'' ''h'' ''{}'' ''q'' False
                              installed_db = (rid2, d2)"
    by (cases "accept ''a.example'' ''app/uninstalled'' ''h'' ''{}'' ''q'' False installed_db")
  show ?thesis
    using accept_records_and_enqueues [OF a1] accept_records_and_enqueues [OF a2] a1 a2
    by (simp only: simp_thms) blast
qed

end
